theory Spec2Isabelle
  imports Main "HOL-Library.Multiset"
begin

section \<open>The per-document controller of the Coq language server\<close>

text \<open>
  A shallow embedding of the server-side class \<open>CoqDocument\<close> (the document controller)
  and of the parts of the editor-side \<open>CoqDocument\<close> that read its results.  The state
  machine \<open>CoqStateMachine\<close> (module \<open>./STM\<close>), the sentence parser (\<open>./coq-parser\<close>)
  and the position arithmetic (\<open>./text-util\<close>) are imported by the controller but are not
  part of the sources at hand: the controller is modelled over them as parameters, and
  small instances written after the specification serve for evaluation.
\<close>

subsection \<open>Positions, ranges and the protocol data\<close>

record Position =
  line :: nat
  character :: nat

record Range =
  range_start :: Position
  range_end :: Position

definition Position_create :: "nat \<Rightarrow> nat \<Rightarrow> Position" where
  "Position_create l c = \<lparr>line = l, character = c\<rparr>"

definition Range_create :: "Position \<Rightarrow> Position \<Rightarrow> Range" where
  "Range_create s e = \<lparr>range_start = s, range_end = e\<rparr>"

text \<open>\<open>thmProto.HighlightType\<close>: the closed set of styles the client knows.\<close>

datatype HighlightType =
  HlClear | HlParsing | HlProcessing | HlInProgress | HlIncomplete
  | HlProcessed | HlComplete | HlTacticFailure

record Highlight =
  style :: HighlightType
  hl_range :: Range

text \<open>\<open>coqProto.SentenceStatus\<close>, with the members the controller's switch names.\<close>

datatype SentenceStatus =
  StParsed | StProcessingInput | StInProgress | StIncomplete | StProcessed | StComplete

datatype DiagnosticSeverity = SevError | SevWarning | SevInformation | SevHint

record Diagnostic =
  diag_range :: Range
  diag_message :: string
  severity :: DiagnosticSeverity
  diag_code :: "string option"
  diag_source :: string

definition Diagnostic_create ::
  "Range \<Rightarrow> string \<Rightarrow> DiagnosticSeverity \<Rightarrow> string option \<Rightarrow> string \<Rightarrow> Diagnostic" where
  "Diagnostic_create r m sev c src =
     \<lparr>diag_range = r, diag_message = m, severity = sev, diag_code = c, diag_source = src\<rparr>"

text \<open>The notifications of \<open>DocumentCallbacks\<close>, as values of a trace.\<close>

datatype Notification =
  SendHighlightUpdates "Highlight list"
  | SendDiagnostics "Diagnostic list"
  | SendMessage string string
  | SendReset
  | SendLtacProfResults string

subsection \<open>JavaScript string operations\<close>

text \<open>
  \<open>String.prototype.substring(a, b)\<close>: both indices are clamped to the string and
  swapped when \<open>a > b\<close>.
\<close>

definition js_substring :: "string \<Rightarrow> int \<Rightarrow> int \<Rightarrow> string" where
  "js_substring s a b =
     (let n = int (length s);
          a' = max 0 (min a n);
          b' = max 0 (min b n);
          lo = min a' b';
          hi = max a' b'
      in take (nat (hi - lo)) (drop (nat lo) s))"

text \<open>\<open>s.substring(a)\<close>, the one-argument form.\<close>

definition js_substring_from :: "string \<Rightarrow> int \<Rightarrow> string" where
  "js_substring_from s a = js_substring s a (int (length s))"

text \<open>
  \<open>String.prototype.substr(start, length)\<close>: the second argument is a length, not an
  end index; a negative start counts from the end.
\<close>

definition js_substr :: "string \<Rightarrow> int \<Rightarrow> int \<Rightarrow> string" where
  "js_substr s start len =
     (let n = int (length s);
          st = (if start < 0 then max (n + start) 0 else min start n);
          l = min (max len 0) (n - st)
      in take (nat l) (drop (nat st) s))"

subsection \<open>The helpers the controller imports\<close>

text \<open>
  \<open>coqParser.parseSentence\<close>, \<open>textUtil.offsetAt\<close> and \<open>textUtil.positionAt\<close> are taken
  as parameters.
\<close>

record TextEnv =
  parseSentence :: "string \<Rightarrow> int"
  offsetAt_text :: "string \<Rightarrow> Position \<Rightarrow> int"
  positionAt_text :: "string \<Rightarrow> int \<Rightarrow> Position"

text \<open>
  Modelled from the spec: \<open>textUtil.positionIsAfter\<close> is not among the sources; positions
  are (line, character) pairs in document order.
\<close>

definition positionIsAfter :: "Position \<Rightarrow> Position \<Rightarrow> bool" where
  "positionIsAfter p q \<longleftrightarrow>
     line p > line q \<or> (line p = line q \<and> character p > character q)"

subsection \<open>The command generator\<close>

record Command =
  cmd_text :: string
  cmd_range :: Range

text \<open>
  \<open>commandSequenceGenerator\<close> is a generator function.  Its suspended states are: created
  but not yet entered (\<open>Fresh\<close>, holding the arguments), suspended at the \<open>yield\<close>
  (holding \<open>endOffset\<close>, \<open>nextOffset\<close>, the flag and the yielded \<open>result\<close>), and
  returned.
\<close>

datatype Gen =
  Fresh Position "Position option" bool
  | Suspended int int bool Command
  | Finished

text \<open>
  One round of the \<open>while(true)\<close> body up to the \<open>yield\<close> or the \<open>return\<close>.
\<close>

definition gen_round ::
  "TextEnv \<Rightarrow> string \<Rightarrow> int \<Rightarrow> int \<Rightarrow> bool \<Rightarrow> Command option \<times> Gen" where
  "gen_round E doc endOffset currentOffset highlight =
     (let commandLength = parseSentence E (js_substr doc currentOffset endOffset);
          nextOffset = currentOffset + commandLength
      in if commandLength > 0 \<or> nextOffset > endOffset then
           (let result = \<lparr>cmd_text = js_substring doc currentOffset nextOffset,
                          cmd_range = Range_create (positionAt_text E doc currentOffset)
                                                   (positionAt_text E doc nextOffset)\<rparr>
            in (Some result, Suspended endOffset nextOffset highlight result))
         else (None, Finished))"

text \<open>
  One call of the iterator's \<open>next()\<close>: the notifications sent while the body runs, the
  value yielded (\<open>None\<close> when the generator returns) and the state it is left in.
  \<open>doc\<close> is \<open>this.documentText\<close>.
\<close>

fun commandSequenceGenerator_next ::
  "TextEnv \<Rightarrow> string \<Rightarrow> Gen \<Rightarrow> Notification list \<times> Command option \<times> Gen" where
  "commandSequenceGenerator_next E doc (Fresh begin end_opt highlight) =
     (let endOffset = (case end_opt of
                         None \<Rightarrow> int (length doc)
                       | Some e \<Rightarrow> min (offsetAt_text E doc e) (int (length doc)));
          currentOffset = offsetAt_text E doc begin
      in if currentOffset \<ge> endOffset then ([], None, Finished)
         else ([], gen_round E doc endOffset currentOffset highlight))"
| "commandSequenceGenerator_next E doc (Suspended endOffset nextOffset highlight result) =
     ((if highlight
       then [SendHighlightUpdates [\<lparr>style = HlParsing, hl_range = cmd_range result\<rparr>]]
       else []),
      gen_round E doc endOffset nextOffset highlight)"
| "commandSequenceGenerator_next E doc Finished = ([], None, Finished)"

text \<open>The flag \<open>highlight\<close> a generator runs with.\<close>

fun gen_highlight :: "Gen \<Rightarrow> bool" where
  "gen_highlight (Fresh begin end_opt highlight) = highlight"
| "gen_highlight (Suspended endOffset nextOffset highlight result) = highlight"
| "gen_highlight Finished = False"

definition commandSequenceGenerator :: "Position \<Rightarrow> Position option \<Rightarrow> bool \<Rightarrow> Gen" where
  "commandSequenceGenerator begin end_opt highlight = Fresh begin end_opt highlight"

text \<open>
  \<open>commandSequence(highlight)\<close> returns \<open>(begin, end?) => this.commandSequenceGenerator(begin, end)\<close>:
  the flag is not handed on, so the generator runs with its default \<open>false\<close>.
\<close>

definition commandSequence :: "bool \<Rightarrow> Position \<Rightarrow> Position option \<Rightarrow> Gen" where
  "commandSequence highlight = (\<lambda>begin end_opt. commandSequenceGenerator begin end_opt False)"

subsection \<open>Results of commands\<close>

text \<open>
  \<open>GoalResult\<close> of the state machine, as the comment in \<open>toGoal\<close> lists it:
  \<open>NoProofTag | NotRunningTag | (FailValue & FailureTag) | (ProofView & ProofViewTag) |
  (CommandInterrupted & InterruptedTag)\<close>.  The payloads are opaque to the controller.
\<close>

record FailValue =
  fail_message :: string
  fail_range :: "Range option"

datatype GoalResult =
  NotRunning
  | NoProof
  | Failure FailValue
  | ProofView "string list"
  | Interrupted "Range option"

text \<open>
  \<open>thmProto.CommandResult\<close>: a goal result that may carry the field \<open>focus\<close>
  (\<open>FocusPosition\<close>); \<open>None\<close> is an object without that field.
\<close>

record CommandResult =
  goal :: GoalResult
  focus :: "Position option"

datatype Exn = TypeError | Thrown string

subsection \<open>The state machine as the controller sees it\<close>

text \<open>The callbacks \<open>resetCoq\<close> hands to \<open>new CoqStateMachine\<close>, as events.\<close>

datatype StmCallback =
  CbSentenceStatusUpdate Range SentenceStatus
  | CbClearSentence Range
  | CbError Range Range string
  | CbMessage string string
  | CbLtacProfResults Range string
  | CbCoqDied "string option"

text \<open>An element of \<open>stm.getErrors()\<close>.\<close>

record StmError =
  err_range :: Range
  err_message :: string
  err_sentence :: Range

text \<open>\<open>TextDocumentContentChangeEvent\<close>.\<close>

record Change =
  change_range :: Range
  rangeLength :: int
  change_text :: string

text \<open>
  The iterator factory \<open>CommandIterator\<close> handed to the state machine: how to create a
  generator and how to ask it for its next command.
\<close>

record CommandIterator =
  it_make :: "Position \<Rightarrow> Position option \<Rightarrow> Gen"
  it_next :: "Gen \<Rightarrow> Command option \<times> Gen"

text \<open>
  One awaited call into the state machine: the callbacks it invokes, in order, each with
  the machine's own state at that moment; what the call resolves to (or the exception it
  rejects with); and the machine's state afterwards.
\<close>

record ('s, 'r) StmRun =
  run_callbacks :: "(StmCallback \<times> 's) list"
  run_result :: "Exn + 'r"
  run_final :: 's

text \<open>
  \<open>CoqStateMachine\<close> is not among the sources; its constructor and the methods the
  controller calls are parameters.  The cancellation token is its flag
  \<open>isCancellationRequested\<close>.
\<close>

record 's StmOps =
  stm_new :: "string \<Rightarrow> 's"
  stm_isRunning :: "'s \<Rightarrow> bool"
  stm_getErrors :: "'s \<Rightarrow> StmError list"
  stm_getFocusedPosition :: "'s \<Rightarrow> Position"
  stm_stepForward :: "'s \<Rightarrow> CommandIterator \<Rightarrow> ('s, CommandResult option) StmRun"
  stm_stepBackward :: "'s \<Rightarrow> ('s, unit) StmRun"
  stm_interpretToPoint ::
    "'s \<Rightarrow> Position \<Rightarrow> CommandIterator \<Rightarrow> bool \<Rightarrow> ('s, CommandResult option) StmRun"
  stm_getGoal :: "'s \<Rightarrow> ('s, GoalResult) StmRun"
  stm_applyChanges :: "'s \<Rightarrow> Change list \<Rightarrow> int \<Rightarrow> ('s, unit) StmRun"
  stm_shutdown :: "'s \<Rightarrow> ('s, unit) StmRun"

subsection \<open>The controller\<close>

text \<open>The fields of the server-side \<open>CoqDocument\<close> that its methods read and write.\<close>

record 's CoqDocument =
  uri :: string
  version :: int
  documentText :: string
  stm :: "'s option"
  coqtopSettings :: string

text \<open>
  What a method does besides returning: notifications to the client, lines on the client
  console, calls into the state machine, and an exception that escapes a callback.
\<close>

datatype StmCallLabel =
  CallNew | CallShutdown | CallDispose | CallStepForward | CallStepBackward
  | CallInterpretToPoint Position | CallGetGoal | CallApplyChanges "Change list" int
  | CallLogDebuggingSentences

datatype Event =
  Notify Notification
  | ConsoleError Exn
  | StmCall StmCallLabel
  | Escaped Exn

definition applyEditToDocument :: "string \<Rightarrow> int \<Rightarrow> Change \<Rightarrow> string" where
  "applyEditToDocument doc begin change =
     js_substring doc 0 begin @ change_text change
       @ js_substring_from doc (begin + rangeLength change)"

definition sentenceStatusToHighlightType :: "SentenceStatus \<Rightarrow> HighlightType" where
  "sentenceStatusToHighlightType status =
     (case status of
        StComplete \<Rightarrow> HlComplete
      | StIncomplete \<Rightarrow> HlIncomplete
      | StInProgress \<Rightarrow> HlInProgress
      | StParsed \<Rightarrow> HlParsing
      | StProcessed \<Rightarrow> HlProcessed
      | StProcessingInput \<Rightarrow> HlProcessing)"

definition highlightSentence :: "Range \<Rightarrow> HighlightType \<Rightarrow> Highlight" where
  "highlightSentence sentence type = \<lparr>style = type, hl_range = sentence\<rparr>"

text \<open>
  \<open>updateDiagnostics\<close>: a new array, one \<open>Diagnostic.create\<close> per element of
  \<open>this.stm.getErrors()\<close> (the loop is \<open>diagnostics_of_errors\<close>), sent whole.  With
  \<open>this.stm\<close> null the member access throws.
\<close>

definition diagnostics_of_errors :: "StmError list \<Rightarrow> Diagnostic list" where
  "diagnostics_of_errors errors =
     map (\<lambda>error. Diagnostic_create (err_range error) (err_message error)
                          SevError None ''coqtop'')
         errors"

definition updateDiagnostics :: "'s StmOps \<Rightarrow> 's CoqDocument \<Rightarrow> Exn + Event list" where
  "updateDiagnostics ops c =
     (case stm c of
        None \<Rightarrow> Inl TypeError
      | Some s \<Rightarrow>
          Inr [Notify (SendDiagnostics (diagnostics_of_errors (stm_getErrors ops s)))])"

text \<open>
  \<open>resetCoq\<close>: shuts a running machine down without awaiting it and installs a new one.
\<close>

definition resetCoq :: "'s StmOps \<Rightarrow> 's CoqDocument \<Rightarrow> 's CoqDocument \<times> Event list" where
  "resetCoq ops c =
     (c\<lparr>stm := Some (stm_new ops (coqtopSettings c))\<rparr>,
      (case stm c of
         None \<Rightarrow> []
       | Some s \<Rightarrow> if stm_isRunning ops s then [StmCall CallShutdown] else [])
      @ [StmCall CallNew])"

text \<open>\<open>!error\<close> holds of \<open>undefined\<close> and of the empty string.\<close>

definition js_falsy_string :: "string option \<Rightarrow> bool" where
  "js_falsy_string e \<longleftrightarrow> (case e of None \<Rightarrow> True | Some m \<Rightarrow> m = [])"

definition onCoqDied ::
  "'s StmOps \<Rightarrow> 's CoqDocument \<Rightarrow> string option \<Rightarrow> 's CoqDocument \<times> Event list" where
  "onCoqDied ops c error =
     (if js_falsy_string error then (c, [])
      else (let (c', t) = resetCoq ops c in (c', t @ [Notify SendReset])))"

definition onCoqStateStatusUpdate :: "Range \<Rightarrow> SentenceStatus \<Rightarrow> Event list" where
  "onCoqStateStatusUpdate rng status =
     [Notify (SendHighlightUpdates
        [highlightSentence rng (sentenceStatusToHighlightType status)])]"

definition onClearSentence :: "Range \<Rightarrow> Event list" where
  "onClearSentence rng = [Notify (SendHighlightUpdates [highlightSentence rng HlClear])]"

definition onCoqStateError ::
  "'s StmOps \<Rightarrow> 's CoqDocument \<Rightarrow> Range \<Rightarrow> Range \<Rightarrow> string \<Rightarrow> Event list" where
  "onCoqStateError ops c sentenceRange errorRange message =
     Notify (SendHighlightUpdates [highlightSentence sentenceRange HlTacticFailure])
     # (case updateDiagnostics ops c of Inl e \<Rightarrow> [Escaped e] | Inr t \<Rightarrow> t)"

definition onCoqMessage :: "string \<Rightarrow> string \<Rightarrow> Event list" where
  "onCoqMessage level message = [Notify (SendMessage level message)]"

definition onCoqStateLtacProf :: "Range \<Rightarrow> string \<Rightarrow> Event list" where
  "onCoqStateLtacProf rng results = [Notify (SendLtacProfResults results)]"

text \<open>
  The dispatch of one callback, as \<open>resetCoq\<close> wires them.  The flag tells whether the
  callback replaced \<open>this.stm\<close>.
\<close>

definition handle_callback ::
  "'s StmOps \<Rightarrow> 's CoqDocument \<Rightarrow> StmCallback \<Rightarrow> bool \<times> 's CoqDocument \<times> Event list" where
  "handle_callback ops c cb =
     (case cb of
        CbSentenceStatusUpdate x1 x2 \<Rightarrow> (False, c, onCoqStateStatusUpdate x1 x2)
      | CbClearSentence x1 \<Rightarrow> (False, c, onClearSentence x1)
      | CbError x1 x2 x3 \<Rightarrow> (False, c, onCoqStateError ops c x1 x2 x3)
      | CbMessage x1 x2 \<Rightarrow> (False, c, onCoqMessage x1 x2)
      | CbLtacProfResults x1 x2 \<Rightarrow> (False, c, onCoqStateLtacProf x1 x2)
      | CbCoqDied error \<Rightarrow>
          (let (c', t) = onCoqDied ops c error in (\<not> js_falsy_string error, c', t)))"

text \<open>
  The callbacks of one call, in order.  While \<open>this.stm\<close> is still the machine the call
  runs on (\<open>same\<close>), the controller sees that machine's state of the moment; once a
  callback has replaced \<open>this.stm\<close>, the old machine's progress no longer shows.
\<close>

fun play_callbacks ::
  "'s StmOps \<Rightarrow> bool \<Rightarrow> 's CoqDocument \<Rightarrow> (StmCallback \<times> 's) list
     \<Rightarrow> bool \<times> 's CoqDocument \<times> Event list" where
  "play_callbacks ops same c [] = (same, c, [])"
| "play_callbacks ops same c ((cb, snapshot) # rest) =
     (let c1 = (if same then c\<lparr>stm := Some snapshot\<rparr> else c);
          (replaced, c2, t) = handle_callback ops c1 cb;
          (same', c3, t') = play_callbacks ops (same \<and> \<not> replaced) c2 rest
      in (same', c3, t @ t'))"

definition run_stm ::
  "'s StmOps \<Rightarrow> 's CoqDocument \<Rightarrow> ('s, 'r) StmRun
     \<Rightarrow> 's CoqDocument \<times> Event list \<times> (Exn + 'r)" where
  "run_stm ops c run =
     (let (same, c1, t) = play_callbacks ops True c (run_callbacks run)
      in ((if same then c1\<lparr>stm := Some (run_final run)\<rparr> else c1), t, run_result run))"

text \<open>\<open>assertStm\<close>: make sure that the state machine is running.\<close>

definition assertStm :: "'s StmOps \<Rightarrow> 's CoqDocument \<Rightarrow> 's CoqDocument \<times> Event list" where
  "assertStm ops c =
     (case stm c of
        None \<Rightarrow> resetCoq ops c
      | Some s \<Rightarrow> if \<not> stm_isRunning ops s then resetCoq ops c else (c, []))"

text \<open>
  \<open>toGoal\<close>: \<open>Object.assign(goal, {focus: this.stm.getFocusedPosition()})\<close> for every
  variant but \<open>not-running\<close>.
\<close>

definition toGoal :: "'s StmOps \<Rightarrow> 's CoqDocument \<Rightarrow> GoalResult \<Rightarrow> Exn + CommandResult" where
  "toGoal ops c g =
     (if g = NotRunning then Inr \<lparr>goal = g, focus = None\<rparr>
      else (case stm c of
              None \<Rightarrow> Inl TypeError
            | Some s \<Rightarrow> Inr \<lparr>goal = g, focus = Some (stm_getFocusedPosition ops s)\<rparr>))"

text \<open>The \<open>finally { this.updateDiagnostics(); }\<close> of the commands.\<close>

definition finally_updateDiagnostics ::
  "'s StmOps \<Rightarrow> 's CoqDocument \<times> Event list \<times> (Exn + CommandResult)
     \<Rightarrow> 's CoqDocument \<times> Event list \<times> (Exn + CommandResult)" where
  "finally_updateDiagnostics ops x =
     (case x of (c, t, r) \<Rightarrow>
        (case updateDiagnostics ops c of
           Inl e \<Rightarrow> (c, t, Inl e)
         | Inr d \<Rightarrow> (c, t @ d, r)))"

text \<open>
  The common tail \<open>this.stm.logDebuggingSentences(); return this.toGoal(await this.stm.getGoal());\<close>
\<close>

definition log_and_getGoal ::
  "'s StmOps \<Rightarrow> 's CoqDocument \<Rightarrow> bool \<Rightarrow> 's CoqDocument \<times> Event list \<times> (Exn + CommandResult)" where
  "log_and_getGoal ops c logging =
     (case stm c of
        None \<Rightarrow> (c, [], Inl TypeError)
      | Some s \<Rightarrow>
          (let (c', t, g) = run_stm ops c (stm_getGoal ops s);
               t0 = (if logging then [StmCall CallLogDebuggingSentences] else [])
                    @ StmCall CallGetGoal # t
           in case g of
                Inl e \<Rightarrow> (c', t0, Inl e)
              | Inr g' \<Rightarrow> (c', t0, toGoal ops c' g')))"

text \<open>
  The iterator a command hands to the state machine.  Its generators run without the
  flag and so send nothing when resumed; \<open>it_next\<close> gives the command and the
  generator's next state.
\<close>

definition the_iterator :: "TextEnv \<Rightarrow> 's CoqDocument \<Rightarrow> bool \<Rightarrow> CommandIterator" where
  "the_iterator E c highlight =
     \<lparr>it_make = commandSequence highlight,
      it_next = (\<lambda>g. snd (commandSequenceGenerator_next E (documentText c) g))\<rparr>"

text \<open>A step that prepends what happened before it.\<close>

definition after ::
  "Event list \<Rightarrow> 's CoqDocument \<times> Event list \<times> (Exn + CommandResult)
     \<Rightarrow> 's CoqDocument \<times> Event list \<times> (Exn + CommandResult)" where
  "after t0 x = (case x of (c, t, r) \<Rightarrow> (c, t0 @ t, r))"

definition stepForward ::
  "TextEnv \<Rightarrow> 's StmOps \<Rightarrow> 's CoqDocument \<Rightarrow> bool
     \<Rightarrow> 's CoqDocument \<times> Event list \<times> (Exn + CommandResult)" where
  "stepForward E ops c token =
     (let (c1, t1) = assertStm ops c in
      finally_updateDiagnostics ops (after t1
        (case stm c1 of
           None \<Rightarrow> (c1, [], Inl TypeError)
         | Some s \<Rightarrow>
             (let (c2, t2, r) =
                    run_stm ops c1 (stm_stepForward ops s (the_iterator E c1 True))
              in after (StmCall CallStepForward # t2)
                   (case r of
                      Inl e \<Rightarrow> (c2, [], Inl e)
                    | Inr (Some error) \<Rightarrow> (c2, [], Inr error)
                    | Inr None \<Rightarrow> log_and_getGoal ops c2 True)))))"

definition stepBackward ::
  "'s StmOps \<Rightarrow> 's CoqDocument \<Rightarrow> bool
     \<Rightarrow> 's CoqDocument \<times> Event list \<times> (Exn + CommandResult)" where
  "stepBackward ops c token =
     (let (c1, t1) = assertStm ops c in
      finally_updateDiagnostics ops (after t1
        (case stm c1 of
           None \<Rightarrow> (c1, [], Inl TypeError)
         | Some s \<Rightarrow>
             (let (c2, t2, r) = run_stm ops c1 (stm_stepBackward ops s)
              in after (StmCall CallStepBackward # t2)
                   (case r of
                      Inl e \<Rightarrow> (c2, [], Inl e)
                    | Inr u \<Rightarrow> log_and_getGoal ops c2 True)))))"

definition interpretToPoint ::
  "TextEnv \<Rightarrow> 's StmOps \<Rightarrow> 's CoqDocument \<Rightarrow> int \<Rightarrow> bool
     \<Rightarrow> 's CoqDocument \<times> Event list \<times> (Exn + CommandResult)" where
  "interpretToPoint E ops c offset token =
     (let (c1, t1) = assertStm ops c in
      finally_updateDiagnostics ops (after t1
        (case stm c1 of
           None \<Rightarrow> (c1, [], Inl TypeError)
         | Some s \<Rightarrow>
             (let pos = positionAt_text E (documentText c1) offset;
                  parsingHighlights =
                    [\<lparr>style = HlParsing,
                      hl_range = Range_create (stm_getFocusedPosition ops s) pos\<rparr>];
                  (c2, t2, r) =
                    run_stm ops c1
                      (stm_interpretToPoint ops s pos (the_iterator E c1 False) token)
              in after (Notify (SendHighlightUpdates parsingHighlights)
                        # StmCall (CallInterpretToPoint pos) # t2)
                   (case r of
                      Inl e \<Rightarrow> (c2, [], Inl e)
                    | Inr (Some error) \<Rightarrow> (c2, [], Inr error)
                    | Inr None \<Rightarrow> log_and_getGoal ops c2 True)))))"

text \<open>
  \<open>interpretToEnd\<close>: what \<open>interpretToPoint\<close> resolves to is an object, so
  \<open>if(error) return error;\<close> always returns it.
\<close>

definition interpretToEnd ::
  "TextEnv \<Rightarrow> 's StmOps \<Rightarrow> 's CoqDocument \<Rightarrow> bool
     \<Rightarrow> 's CoqDocument \<times> Event list \<times> (Exn + CommandResult)" where
  "interpretToEnd E ops c token =
     (let (c1, t1) = assertStm ops c in
      finally_updateDiagnostics ops (after t1
        (interpretToPoint E ops c1 (int (length (documentText c1))) token)))"

definition getGoal ::
  "'s StmOps \<Rightarrow> 's CoqDocument \<Rightarrow> 's CoqDocument \<times> Event list \<times> (Exn + CommandResult)" where
  "getGoal ops c =
     (case stm c of
        None \<Rightarrow> (c, [], Inr \<lparr>goal = NotRunning, focus = None\<rparr>)
      | Some s \<Rightarrow>
          if \<not> stm_isRunning ops s then (c, [], Inr \<lparr>goal = NotRunning, focus = None\<rparr>)
          else finally_updateDiagnostics ops (log_and_getGoal ops c False))"

subsection \<open>Text edits\<close>

text \<open>
  The comparator of \<open>applyTextEdits\<close>: \<open>-1\<close> when the first change starts after the
  second, \<open>1\<close> otherwise (also for equal starts).
\<close>

definition changeCompare :: "Change \<Rightarrow> Change \<Rightarrow> int" where
  "changeCompare change1 change2 =
     (if positionIsAfter (range_start (change_range change1))
                         (range_start (change_range change2))
      then - 1 else 1)"

text \<open>
  \<open>Array.prototype.sort(comparefn)\<close> as the insertion sort the engine runs on short
  arrays: each element moves left past the elements \<open>tmp\<close> with
  \<open>comparefn(tmp, element) > 0\<close>.  The sorted prefix is kept reversed.  Where the
  comparator ranks no two elements alike, every sorting algorithm gives this result.
\<close>

fun js_insert :: "('a \<Rightarrow> 'a \<Rightarrow> int) \<Rightarrow> 'a \<Rightarrow> 'a list \<Rightarrow> 'a list" where
  "js_insert comparefn element [] = [element]"
| "js_insert comparefn element (tmp # rest) =
     (if comparefn tmp element > 0 then tmp # js_insert comparefn element rest
      else element # tmp # rest)"

definition js_sort :: "('a \<Rightarrow> 'a \<Rightarrow> int) \<Rightarrow> 'a list \<Rightarrow> 'a list" where
  "js_sort comparefn a = rev (foldl (\<lambda>prefix element. js_insert comparefn element prefix) [] a)"

text \<open>The loop over \<open>sortedChanges\<close>: the offset of a change is looked up in the text
  as the changes before it have left it.\<close>

definition apply_sorted_changes :: "TextEnv \<Rightarrow> Change list \<Rightarrow> string \<Rightarrow> string" where
  "apply_sorted_changes E sortedChanges doc =
     fold (\<lambda>change d.
             applyEditToDocument d (offsetAt_text E d (range_start (change_range change))) change)
          sortedChanges doc"

text \<open>
  For comparison: the same loop with every offset looked up beforehand, in the text as
  it was before the batch.
\<close>

definition change_start :: "Change \<Rightarrow> Position" where
  "change_start change = range_start (change_range change)"

definition precomputed_changes :: "TextEnv \<Rightarrow> Change list \<Rightarrow> string \<Rightarrow> string" where
  "precomputed_changes E sortedChanges doc =
     fold (\<lambda>change d. applyEditToDocument d (offsetAt_text E doc (change_start change)) change)
          sortedChanges doc"

text \<open>
  \<open>applyTextEdits\<close>.  An exception of \<open>stm.applyChanges\<close> (or of the member access on a
  null \<open>this.stm\<close>) is caught and written to the console; the edits and the version are
  applied all the same.
\<close>

definition applyTextEdits ::
  "TextEnv \<Rightarrow> 's StmOps \<Rightarrow> 's CoqDocument \<Rightarrow> Change list \<Rightarrow> int
     \<Rightarrow> 's CoqDocument \<times> Event list" where
  "applyTextEdits E ops c changes newVersion =
     (let sortedChanges = js_sort changeCompare changes;
          (c1, t1) =
            (case stm c of
               None \<Rightarrow> (c, [ConsoleError TypeError])
             | Some s \<Rightarrow>
                 (let (c', t, r) =
                        run_stm ops c (stm_applyChanges ops s sortedChanges newVersion)
                  in (c', StmCall (CallApplyChanges sortedChanges newVersion) # t
                          @ (case r of Inl e \<Rightarrow> [ConsoleError e] | Inr u \<Rightarrow> []))))
      in (c1\<lparr>documentText := apply_sorted_changes E sortedChanges (documentText c1),
              version := newVersion\<rparr>, t1))"

text \<open>\<open>quitCoq\<close> and \<open>close\<close>.\<close>

definition quitCoq :: "'s StmOps \<Rightarrow> 's CoqDocument \<Rightarrow> 's CoqDocument \<times> Event list \<times> (Exn + unit)" where
  "quitCoq ops c =
     (case stm c of
        None \<Rightarrow> (c, [], Inr ())
      | Some s \<Rightarrow>
          if \<not> stm_isRunning ops s then (c, [], Inr ())
          else (let (c1, t, r) = run_stm ops c (stm_shutdown ops s)
                in case r of
                     Inl e \<Rightarrow> (c1, StmCall CallShutdown # t, Inl e)
                   | Inr u \<Rightarrow>
                       (c1\<lparr>stm := None\<rparr>, StmCall CallShutdown # t @ [StmCall CallDispose],
                        Inr ())))"

definition close :: "'s StmOps \<Rightarrow> 's CoqDocument \<Rightarrow> 's CoqDocument \<times> Event list \<times> (Exn + unit)" where
  "close ops c =
     (case stm c of
        None \<Rightarrow> (c, [], Inl TypeError)
      | Some s \<Rightarrow>
          (let (c1, t, r) = run_stm ops c (stm_shutdown ops s)
           in (c1, StmCall CallShutdown # t, r)))"

subsection \<open>The editor side\<close>

text \<open>
  The editor's \<open>stepForward\<close> and \<open>stepBackward\<close> move each unmoved cursor to
  \<open>value.focus\<close> unless the result is \<open>not-running\<close>; reading \<open>value.focus.line\<close> of a
  result without the field throws.
\<close>

definition client_cursor_target :: "CommandResult \<Rightarrow> Exn + Position option" where
  "client_cursor_target v =
     (if goal v \<noteq> NotRunning
      then (case focus v of None \<Rightarrow> Inl TypeError | Some f \<Rightarrow> Inr (Some f))
      else Inr None)"

subsection \<open>The mapping of the specification\<close>

text \<open>
  The table of the specification, written after its words, to compare the controller's
  handlers with: eight sentence statuses and the client highlight of each.
\<close>

datatype SpecStatus =
  SpParsed | SpProcessing | SpInProgress | SpIncomplete | SpProcessed | SpComplete
  | SpError | SpCleared

definition spec_highlight :: "SpecStatus \<Rightarrow> HighlightType" where
  "spec_highlight st =
     (case st of
        SpParsed \<Rightarrow> HlParsing
      | SpProcessing \<Rightarrow> HlProcessing
      | SpInProgress \<Rightarrow> HlInProgress
      | SpIncomplete \<Rightarrow> HlIncomplete
      | SpProcessed \<Rightarrow> HlProcessed
      | SpComplete \<Rightarrow> HlComplete
      | SpError \<Rightarrow> HlTacticFailure
      | SpCleared \<Rightarrow> HlClear)"

text \<open>
  How the state machine reports each status of the table: the six members of
  \<open>SentenceStatus\<close> through \<open>sentenceStatusUpdate\<close>, \<open>Error\<close> through the callback
  \<open>error\<close> (with the sentence's range) and \<open>Cleared\<close> through \<open>clearSentence\<close>.
\<close>

definition reported_status :: "StmCallback \<Rightarrow> (SpecStatus \<times> Range) option" where
  "reported_status cb =
     (case cb of
        CbSentenceStatusUpdate r st \<Rightarrow>
          Some ((case st of
                   StParsed \<Rightarrow> SpParsed
                 | StProcessingInput \<Rightarrow> SpProcessing
                 | StInProgress \<Rightarrow> SpInProgress
                 | StIncomplete \<Rightarrow> SpIncomplete
                 | StProcessed \<Rightarrow> SpProcessed
                 | StComplete \<Rightarrow> SpComplete), r)
      | CbClearSentence r \<Rightarrow> Some (SpCleared, r)
      | CbError sentenceRange errorRange message \<Rightarrow> Some (SpError, sentenceRange)
      | CbMessage level message \<Rightarrow> None
      | CbLtacProfResults r results \<Rightarrow> None
      | CbCoqDied error \<Rightarrow> None)"

subsection \<open>Instances for evaluation\<close>

text \<open>
  Modelled from the spec: the sentence parser \<open>coqParser.parseSentence\<close> is not among
  the sources.  A sentence ends at a period followed by whitespace or the end of the
  input, outside comments and quoted literals; block comments nest; a run of one bullet
  character, or a single brace, at the start of a sentence is a sentence; leading
  whitespace and comments belong to the sentence that follows.  (Bracketed groups and
  backquote notations are not told apart.)  The controller reads the result as a number:
  the length consumed, and \<open>-1\<close> where there is no complete sentence.
\<close>

definition is_ws :: "char \<Rightarrow> bool" where
  "is_ws c \<longleftrightarrow> c = CHR '' '' \<or> c = CHR 0x0A \<or> c = CHR 0x0D \<or> c = CHR 0x09"

definition is_bullet :: "char \<Rightarrow> bool" where
  "is_bullet c \<longleftrightarrow> c = CHR ''-'' \<or> c = CHR ''+'' \<or> c = CHR ''*''"

datatype ParseOutcome = Complete nat | Incomplete | Empty

datatype ScanMode = Lead | LeadComment nat | Bullet char | Body | BodyComment nat | Quoted

fun scan :: "ScanMode \<Rightarrow> nat \<Rightarrow> string \<Rightarrow> ParseOutcome" where
  "scan Lead n [] = Empty"
| "scan Lead n (c # cs) =
     (if is_ws c then scan Lead (n + 1) cs
      else if c = CHR ''('' \<and> (case cs of [] \<Rightarrow> False | c' # _ \<Rightarrow> c' = CHR ''*'')
        then scan (LeadComment 0) (n + 2) (tl cs)
      else if is_bullet c then scan (Bullet c) (n + 1) cs
      else if c = CHR ''{'' \<or> c = CHR ''}'' then Complete (n + 1)
      else if c = CHR 0x22 then scan Quoted (n + 1) cs
      else if c = CHR ''.'' \<and> (case cs of [] \<Rightarrow> True | c' # _ \<Rightarrow> is_ws c')
        then Complete (n + 1)
      else scan Body (n + 1) cs)"
| "scan (LeadComment d) n [] = Empty"
| "scan (LeadComment d) n (c # cs) =
     (if c = CHR ''('' \<and> (case cs of [] \<Rightarrow> False | c' # _ \<Rightarrow> c' = CHR ''*'')
        then scan (LeadComment (d + 1)) (n + 2) (tl cs)
      else if c = CHR ''*'' \<and> (case cs of [] \<Rightarrow> False | c' # _ \<Rightarrow> c' = CHR '')'')
        then scan (if d = 0 then Lead else LeadComment (d - 1)) (n + 2) (tl cs)
      else scan (LeadComment d) (n + 1) cs)"
| "scan (Bullet b) n [] = Complete n"
| "scan (Bullet b) n (c # cs) = (if c = b then scan (Bullet b) (n + 1) cs else Complete n)"
| "scan Body n [] = Incomplete"
| "scan Body n (c # cs) =
     (if c = CHR ''('' \<and> (case cs of [] \<Rightarrow> False | c' # _ \<Rightarrow> c' = CHR ''*'')
        then scan (BodyComment 0) (n + 2) (tl cs)
      else if c = CHR 0x22 then scan Quoted (n + 1) cs
      else if c = CHR ''.'' \<and> (case cs of [] \<Rightarrow> True | c' # _ \<Rightarrow> is_ws c')
        then Complete (n + 1)
      else scan Body (n + 1) cs)"
| "scan (BodyComment d) n [] = Incomplete"
| "scan (BodyComment d) n (c # cs) =
     (if c = CHR ''('' \<and> (case cs of [] \<Rightarrow> False | c' # _ \<Rightarrow> c' = CHR ''*'')
        then scan (BodyComment (d + 1)) (n + 2) (tl cs)
      else if c = CHR ''*'' \<and> (case cs of [] \<Rightarrow> False | c' # _ \<Rightarrow> c' = CHR '')'')
        then scan (if d = 0 then Body else BodyComment (d - 1)) (n + 2) (tl cs)
      else scan (BodyComment d) (n + 1) cs)"
| "scan Quoted n [] = Incomplete"
| "scan Quoted n (c # cs) =
     (if c = CHR 0x22 then
        (if (case cs of [] \<Rightarrow> False | c' # _ \<Rightarrow> c' = CHR 0x22)
         then scan Quoted (n + 2) (tl cs) else scan Body (n + 1) cs)
      else scan Quoted (n + 1) cs)"

definition parse_sentence :: "string \<Rightarrow> ParseOutcome" where
  "parse_sentence s = scan Lead 0 s"

definition parseSentence_model :: "string \<Rightarrow> int" where
  "parseSentence_model s = (case parse_sentence s of Complete n \<Rightarrow> int n | _ \<Rightarrow> - 1)"

text \<open>
  Modelled from the spec: \<open>textUtil.positionAt\<close> and \<open>textUtil.offsetAt\<close> are not among
  the sources.  Lines end at \<open>\r\n\<close>, \<open>\r\<close> or \<open>\n\<close>; an offset beyond the text is
  the end of the text, and so is a line beyond the last.
\<close>

fun position_walk :: "nat \<Rightarrow> nat \<Rightarrow> nat \<Rightarrow> string \<Rightarrow> Position" where
  "position_walk l c 0 s = \<lparr>line = l, character = c\<rparr>"
| "position_walk l c (Suc k) [] = \<lparr>line = l, character = c\<rparr>"
| "position_walk l c (Suc k) (x # xs) =
     (if x = CHR 0x0A \<or> (x = CHR 0x0D \<and> (case xs of [] \<Rightarrow> True | y # _ \<Rightarrow> y \<noteq> CHR 0x0A))
      then position_walk (l + 1) 0 k xs
      else position_walk l (c + 1) k xs)"

definition positionAt_model :: "string \<Rightarrow> int \<Rightarrow> Position" where
  "positionAt_model s off = position_walk 0 0 (nat off) s"

fun offset_walk :: "nat \<Rightarrow> nat \<Rightarrow> nat \<Rightarrow> string \<Rightarrow> nat" where
  "offset_walk 0 ch acc s = acc + ch"
| "offset_walk (Suc l) ch acc [] = acc"
| "offset_walk (Suc l) ch acc (x # xs) =
     (if x = CHR 0x0A \<or> (x = CHR 0x0D \<and> (case xs of [] \<Rightarrow> True | y # _ \<Rightarrow> y \<noteq> CHR 0x0A))
      then offset_walk l ch (acc + 1) xs
      else offset_walk (Suc l) ch (acc + 1) xs)"

definition offsetAt_model :: "string \<Rightarrow> Position \<Rightarrow> int" where
  "offsetAt_model s p = int (offset_walk (line p) (character p) 0 s)"

definition model_env :: TextEnv where
  "model_env = \<lparr>parseSentence = parseSentence_model, offsetAt_text = offsetAt_model,
                positionAt_text = positionAt_model\<rparr>"

text \<open>
  Modelled from the spec: \<open>CoqStateMachine\<close> is not among the sources.  A small
  deterministic machine after the contract of the specification: the spine is the list of
  the sentences added, the focus is the end of the last one, and the prover rejects exactly
  the sentence \<open>Fail.\<close> with the message \<open>syntax\<close>.  \<open>step_forward\<close> takes the next
  command of the iterator at the focus; \<open>interpret_to_point\<close> rewinds when the target is
  before the focus and otherwise adds commands until the next one would exceed the target,
  the iterator is exhausted, a command fails, or the bound on the number of sentences of
  one call is reached; \<open>apply_changes\<close> drops every sentence that ends after the start of
  a change.  The Parsing highlight of a command is left to the command generator.
\<close>

record ToyStm =
  toy_running :: bool
  toy_spine :: "Command list"
  toy_errors :: "StmError list"

definition toy_focus :: "ToyStm \<Rightarrow> Position" where
  "toy_focus s =
     (case rev (toy_spine s) of [] \<Rightarrow> Position_create 0 0 | tip # _ \<Rightarrow> range_end (cmd_range tip))"

definition toy_idle :: "ToyStm \<Rightarrow> 'r \<Rightarrow> (ToyStm, 'r) StmRun" where
  "toy_idle s r = \<lparr>run_callbacks = [], run_result = Inr r, run_final = s\<rparr>"

definition prover_rejects :: "Command \<Rightarrow> bool" where
  "prover_rejects cmd \<longleftrightarrow> dropWhile is_ws (cmd_text cmd) = ''Fail.''"

text \<open>One \<open>add\<close>: the callbacks it causes, the failure if any, and the machine afterwards.\<close>

definition toy_add ::
  "ToyStm \<Rightarrow> Command \<Rightarrow> (StmCallback \<times> ToyStm) list \<times> CommandResult option \<times> ToyStm" where
  "toy_add s cmd =
     (if prover_rejects cmd then
        (let s' = s\<lparr>toy_errors :=
                      [\<lparr>err_range = cmd_range cmd, err_message = ''syntax'',
                        err_sentence = cmd_range cmd\<rparr>]\<rparr>
         in ([(CbClearSentence (cmd_range cmd), s'),
              (CbError (cmd_range cmd) (cmd_range cmd) ''syntax'', s')],
             Some \<lparr>goal = Failure \<lparr>fail_message = ''syntax'',
                                   fail_range = Some (cmd_range cmd)\<rparr>,
                   focus = Some (toy_focus s)\<rparr>,
             s'))
      else
        (let s' = s\<lparr>toy_spine := toy_spine s @ [cmd], toy_errors := []\<rparr>
         in ([(CbSentenceStatusUpdate (cmd_range cmd) StProcessingInput, s'),
              (CbSentenceStatusUpdate (cmd_range cmd) StProcessed, s')],
             None, s')))"

definition toy_stepForward ::
  "ToyStm \<Rightarrow> CommandIterator \<Rightarrow> (ToyStm, CommandResult option) StmRun" where
  "toy_stepForward s it =
     (if \<not> toy_running s then toy_idle s None
      else (case fst (it_next it (it_make it (toy_focus s) None)) of
              None \<Rightarrow> toy_idle s None
            | Some cmd \<Rightarrow>
                (case toy_add s cmd of
                   (cbs, r, s') \<Rightarrow> \<lparr>run_callbacks = cbs, run_result = Inr r, run_final = s'\<rparr>)))"

definition toy_stepBackward :: "ToyStm \<Rightarrow> (ToyStm, unit) StmRun" where
  "toy_stepBackward s =
     (if \<not> toy_running s then toy_idle s ()
      else (case rev (toy_spine s) of
              [] \<Rightarrow> toy_idle s ()
            | tip # _ \<Rightarrow>
                (let s' = s\<lparr>toy_spine := butlast (toy_spine s), toy_errors := []\<rparr>
                 in \<lparr>run_callbacks = [(CbClearSentence (cmd_range tip), s')],
                     run_result = Inr (), run_final = s'\<rparr>)))"

fun toy_advance ::
  "nat \<Rightarrow> Position \<Rightarrow> CommandIterator \<Rightarrow> Gen \<Rightarrow> ToyStm \<Rightarrow> (StmCallback \<times> ToyStm) list
     \<Rightarrow> (ToyStm, CommandResult option) StmRun" where
  "toy_advance 0 target it g s sofar =
     \<lparr>run_callbacks = sofar, run_result = Inr None, run_final = s\<rparr>"
| "toy_advance (Suc n) target it g s sofar =
     (case it_next it g of
        (None, g') \<Rightarrow> \<lparr>run_callbacks = sofar, run_result = Inr None, run_final = s\<rparr>
      | (Some cmd, g') \<Rightarrow>
          if positionIsAfter (range_end (cmd_range cmd)) target
          then \<lparr>run_callbacks = sofar, run_result = Inr None, run_final = s\<rparr>
          else (case toy_add s cmd of
                  (cbs, Some failure, s') \<Rightarrow>
                    \<lparr>run_callbacks = sofar @ cbs, run_result = Inr (Some failure), run_final = s'\<rparr>
                | (cbs, None, s') \<Rightarrow> toy_advance n target it g' s' (sofar @ cbs)))"

definition toy_rewind :: "ToyStm \<Rightarrow> Position \<Rightarrow> (ToyStm, CommandResult option) StmRun" where
  "toy_rewind s target =
     (let kept = takeWhile (\<lambda>cmd. \<not> positionIsAfter (range_end (cmd_range cmd)) target)
                           (toy_spine s);
          s' = s\<lparr>toy_spine := kept, toy_errors := []\<rparr>
      in \<lparr>run_callbacks =
            map (\<lambda>cmd. (CbClearSentence (cmd_range cmd), s'))
                (rev (drop (length kept) (toy_spine s))),
          run_result = Inr None, run_final = s'\<rparr>)"

definition toy_interpretToPoint ::
  "nat \<Rightarrow> ToyStm \<Rightarrow> Position \<Rightarrow> CommandIterator \<Rightarrow> bool
     \<Rightarrow> (ToyStm, CommandResult option) StmRun" where
  "toy_interpretToPoint bound s target it token =
     (if \<not> toy_running s then toy_idle s None
      else if token
        then toy_idle s (Some \<lparr>goal = Interrupted None, focus = Some (toy_focus s)\<rparr>)
      else if positionIsAfter (toy_focus s) target then toy_rewind s target
      else toy_advance bound target it (it_make it (toy_focus s) (Some target)) s [])"

definition toy_getGoal :: "ToyStm \<Rightarrow> (ToyStm, GoalResult) StmRun" where
  "toy_getGoal s =
     toy_idle s
       (if \<not> toy_running s then NotRunning
        else (case toy_errors s of
                e # _ \<Rightarrow> Failure \<lparr>fail_message = err_message e, fail_range = Some (err_range e)\<rparr>
              | [] \<Rightarrow> (if toy_spine s = [] then NoProof
                       else ProofView (map cmd_text (toy_spine s)))))"

definition toy_applyChanges :: "ToyStm \<Rightarrow> Change list \<Rightarrow> int \<Rightarrow> (ToyStm, unit) StmRun" where
  "toy_applyChanges s changes newVersion =
     (let untouched =
            (\<lambda>cmd. list_all
                      (\<lambda>change. \<not> positionIsAfter (range_end (cmd_range cmd))
                                                  (range_start (change_range change)))
                      changes);
          kept = takeWhile untouched (toy_spine s);
          s' = s\<lparr>toy_spine := kept\<rparr>
      in \<lparr>run_callbacks =
            map (\<lambda>cmd. (CbClearSentence (cmd_range cmd), s'))
                (rev (drop (length kept) (toy_spine s))),
          run_result = Inr (), run_final = s'\<rparr>)"

definition toy_shutdown :: "ToyStm \<Rightarrow> (ToyStm, unit) StmRun" where
  "toy_shutdown s = toy_idle (s\<lparr>toy_running := False\<rparr>) ()"

definition toy_ops :: "nat \<Rightarrow> ToyStm StmOps" where
  "toy_ops bound =
     \<lparr>stm_new = (\<lambda>settings. \<lparr>toy_running = True, toy_spine = [], toy_errors = []\<rparr>),
      stm_isRunning = toy_running,
      stm_getErrors = toy_errors,
      stm_getFocusedPosition = toy_focus,
      stm_stepForward = toy_stepForward,
      stm_stepBackward = toy_stepBackward,
      stm_interpretToPoint = toy_interpretToPoint bound,
      stm_getGoal = toy_getGoal,
      stm_applyChanges = toy_applyChanges,
      stm_shutdown = toy_shutdown\<rparr>"

text \<open>A document just opened: its text, version 0 and a new machine.\<close>

definition new_document :: "string \<Rightarrow> ToyStm CoqDocument" where
  "new_document txt =
     \<lparr>uri = ''file:///a.v'', version = 0, documentText = txt,
      stm = Some (stm_new (toy_ops 100) ''coqtop''), coqtopSettings = ''coqtop''\<rparr>"

subsection \<open>Example inputs\<close>

definition example_target :: Position where
  "example_target = Position_create 0 4"

definition example_gen0 :: Gen where
  "example_gen0 = commandSequence False (Position_create 0 0) (Some example_target)"

definition example_gen1 :: Gen where
  "example_gen1 = snd (snd (commandSequenceGenerator_next model_env ''A. B.'' example_gen0))"

text \<open>A document whose machine has been shut down by \<open>close\<close>.\<close>

definition closed_document :: "ToyStm CoqDocument" where
  "closed_document = fst (close (toy_ops 100) (new_document ''A.''))"

text \<open>A document at version 5, and a change that replaces its first character.\<close>

definition versioned_document :: "ToyStm CoqDocument" where
  "versioned_document = (new_document ''A.'')\<lparr>version := 5\<rparr>"

definition example_change :: Change where
  "example_change =
     \<lparr>change_range = Range_create (Position_create 0 0) (Position_create 0 1),
      rangeLength = 1, change_text = ''B''\<rparr>"

text \<open>
  A document on which a step forward has failed on \<open>Fail.\<close> and whose machine
  \<open>close\<close> has then shut down.
\<close>

definition failed_closed_document :: "ToyStm CoqDocument" where
  "failed_closed_document =
     fst (close (toy_ops 100)
            (fst (stepForward model_env (toy_ops 100) (new_document ''Fail.'') False)))"

text \<open>Two changes of one batch on the text \<open>A. B. C.\<close>, the earlier one first.\<close>

definition example_batch :: "Change list" where
  "example_batch =
     [\<lparr>change_range = Range_create (Position_create 0 0) (Position_create 0 1),
       rangeLength = 1, change_text = ''XY''\<rparr>,
      \<lparr>change_range = Range_create (Position_create 0 3) (Position_create 0 4),
       rangeLength = 1, change_text = []\<rparr>]"


section \<open>Properties\<close>

subsection \<open>The state machine is never lost during a command\<close>

lemma handle_callback_stm:
  "stm c \<noteq> None \<Longrightarrow> stm (fst (snd (handle_callback ops c cb))) \<noteq> None"
  by (cases cb) (auto simp: handle_callback_def onCoqDied_def resetCoq_def split: prod.splits)

lemma play_callbacks_stm:
  "stm c \<noteq> None \<Longrightarrow> stm (fst (snd (play_callbacks ops same c cbs))) \<noteq> None"
proof (induction cbs arbitrary: same c)
  case Nil
  then show ?case by simp
next
  case (Cons a cbs)
  obtain cb snapshot where a: "a = (cb, snapshot)" by (cases a)
  define c1 where "c1 = (if same then c\<lparr>stm := Some snapshot\<rparr> else c)"
  define h where "h = handle_callback ops c1 cb"
  have "stm c1 \<noteq> None" using Cons.prems by (simp add: c1_def)
  then have "stm (fst (snd h)) \<noteq> None"
    unfolding h_def by (rule handle_callback_stm)
  then have "stm (fst (snd (play_callbacks ops (same \<and> \<not> fst h) (fst (snd h)) cbs))) \<noteq> None"
    by (rule Cons.IH)
  then show ?case
    by (simp add: a Let_def split_beta c1_def[symmetric] h_def[symmetric])
qed

lemma run_stm_stm:
  "stm c \<noteq> None \<Longrightarrow> stm (fst (run_stm ops c run)) \<noteq> None"
  using play_callbacks_stm[of c ops True "run_callbacks run"]
  by (auto simp: run_stm_def Let_def split_beta)

lemma assertStm_stm: "stm (fst (assertStm ops c)) \<noteq> None"
  by (auto simp: assertStm_def resetCoq_def split: option.splits)

lemma log_and_getGoal_stm:
  "stm c \<noteq> None \<Longrightarrow> stm (fst (log_and_getGoal ops c l)) \<noteq> None"
  using run_stm_stm[of c ops]
  by (auto simp: log_and_getGoal_def Let_def split_beta split: option.splits sum.splits)

lemma finally_updateDiagnostics_Some:
  "stm c = Some s \<Longrightarrow>
     finally_updateDiagnostics ops (c, t, r)
       = (c, t @ [Notify (SendDiagnostics (diagnostics_of_errors (stm_getErrors ops s)))], r)"
  by (simp add: finally_updateDiagnostics_def updateDiagnostics_def)

lemma finally_updateDiagnostics_ends:
  assumes "stm (fst x) \<noteq> None"
  shows "\<exists>t0 s'. stm (fst (finally_updateDiagnostics ops x)) = Some s'
           \<and> fst (snd (finally_updateDiagnostics ops x))
               = t0 @ [Notify (SendDiagnostics (diagnostics_of_errors (stm_getErrors ops s')))]"
proof -
  obtain c t r where x: "x = (c, t, r)" by (cases x)
  with assms obtain s where s: "stm c = Some s" by auto
  show ?thesis
    unfolding x finally_updateDiagnostics_Some[OF s] using s by auto
qed

lemma after_fst: "fst (after t0 x) = fst x"
  by (cases x) (simp add: after_def)

lemma after_Nil: "after [] x = x"
  by (cases x) (simp add: after_def)

lemma finally_after:
  "finally_updateDiagnostics ops (after t x) = after t (finally_updateDiagnostics ops x)"
  by (cases x) (simp add: after_def finally_updateDiagnostics_def split: sum.splits)

lemma handle_callback_text:
  "documentText (fst (snd (handle_callback ops c cb))) = documentText c
   \<and> version (fst (snd (handle_callback ops c cb))) = version c"
  by (cases cb) (auto simp: handle_callback_def onCoqDied_def resetCoq_def split: prod.splits)

lemma play_callbacks_text:
  "documentText (fst (snd (play_callbacks ops same c cbs))) = documentText c
   \<and> version (fst (snd (play_callbacks ops same c cbs))) = version c"
proof (induction cbs arbitrary: same c)
  case Nil
  then show ?case by simp
next
  case (Cons a cbs)
  obtain cb snapshot where a: "a = (cb, snapshot)" by (cases a)
  define c1 where "c1 = (if same then c\<lparr>stm := Some snapshot\<rparr> else c)"
  define h where "h = handle_callback ops c1 cb"
  have "documentText c1 = documentText c \<and> version c1 = version c"
    by (simp add: c1_def)
  moreover have "documentText (fst (snd h)) = documentText c1 \<and> version (fst (snd h)) = version c1"
    unfolding h_def by (rule handle_callback_text)
  moreover have "documentText (fst (snd (play_callbacks ops (same \<and> \<not> fst h) (fst (snd h)) cbs)))
          = documentText (fst (snd h))
       \<and> version (fst (snd (play_callbacks ops (same \<and> \<not> fst h) (fst (snd h)) cbs)))
          = version (fst (snd h))"
    by (rule Cons.IH)
  ultimately show ?case
    by (simp add: a Let_def split_beta c1_def[symmetric] h_def[symmetric])
qed

lemma run_stm_text:
  "documentText (fst (run_stm ops c run)) = documentText c
   \<and> version (fst (run_stm ops c run)) = version c"
  using play_callbacks_text[of ops True c "run_callbacks run"]
  by (simp add: run_stm_def Let_def split_beta)

lemma new_document_fields:
  "stm (new_document txt) = Some (stm_new (toy_ops 100) ''coqtop'')"
  "documentText (new_document txt) = txt"
  "coqtopSettings (new_document txt) = ''coqtop''"
  by (simp_all add: new_document_def)

lemma toy_new_running: "stm_isRunning (toy_ops n) (stm_new (toy_ops n) settings)"
  by (simp add: toy_ops_def)

lemma failed_closed_document_stm:
  "map_option toy_running (stm failed_closed_document) = Some False"
  by code_simp

lemma failed_closed_document_dead:
  "stm failed_closed_document = None
   \<or> (\<exists>s. stm failed_closed_document = Some s \<and> \<not> stm_isRunning (toy_ops 100) s)"
  using failed_closed_document_stm
  by (cases "stm failed_closed_document") (auto simp: toy_ops_def)

lemma closed_document_stm:
  "stm closed_document = Some \<lparr>toy_running = False, toy_spine = [], toy_errors = []\<rparr>"
  by code_simp

subsection \<open>Diagnostics after a command\<close>

lemma stepForward_ends:
  "\<exists>t0 s'. stm (fst (stepForward E ops c tok)) = Some s'
      \<and> fst (snd (stepForward E ops c tok))
          = t0 @ [Notify (SendDiagnostics (diagnostics_of_errors (stm_getErrors ops s')))]"
  unfolding stepForward_def Let_def split_beta
  by (rule finally_updateDiagnostics_ends)
     (auto simp: after_fst assertStm_stm run_stm_stm log_and_getGoal_stm
           simp del: not_None_eq split: option.splits sum.splits)

lemma stepBackward_ends:
  "\<exists>t0 s'. stm (fst (stepBackward ops c tok)) = Some s'
      \<and> fst (snd (stepBackward ops c tok))
          = t0 @ [Notify (SendDiagnostics (diagnostics_of_errors (stm_getErrors ops s')))]"
  unfolding stepBackward_def Let_def split_beta
  by (rule finally_updateDiagnostics_ends)
     (auto simp: after_fst assertStm_stm run_stm_stm log_and_getGoal_stm
           simp del: not_None_eq split: option.splits sum.splits)

lemma interpretToPoint_ends:
  "\<exists>t0 s'. stm (fst (interpretToPoint E ops c offset tok)) = Some s'
      \<and> fst (snd (interpretToPoint E ops c offset tok))
          = t0 @ [Notify (SendDiagnostics (diagnostics_of_errors (stm_getErrors ops s')))]"
  unfolding interpretToPoint_def Let_def split_beta
  by (rule finally_updateDiagnostics_ends)
     (auto simp: after_fst assertStm_stm run_stm_stm log_and_getGoal_stm
           simp del: not_None_eq split: option.splits sum.splits)

lemma interpretToPoint_stm: "stm (fst (interpretToPoint E ops c offset tok)) \<noteq> None"
  using interpretToPoint_ends[of E ops c offset tok] by auto

lemma interpretToEnd_ends:
  "\<exists>t0 s'. stm (fst (interpretToEnd E ops c tok)) = Some s'
      \<and> fst (snd (interpretToEnd E ops c tok))
          = t0 @ [Notify (SendDiagnostics (diagnostics_of_errors (stm_getErrors ops s')))]"
  unfolding interpretToEnd_def Let_def split_beta
  by (rule finally_updateDiagnostics_ends) (simp add: after_fst interpretToPoint_stm)

lemma getGoal_running_ends:
  assumes "stm c = Some s" and "stm_isRunning ops s"
  shows "\<exists>t0 s'. stm (fst (getGoal ops c)) = Some s'
      \<and> fst (snd (getGoal ops c))
          = t0 @ [Notify (SendDiagnostics (diagnostics_of_errors (stm_getErrors ops s')))]"
proof -
  have "getGoal ops c = finally_updateDiagnostics ops (log_and_getGoal ops c False)"
    using assms by (simp add: getGoal_def)
  moreover have "stm (fst (log_and_getGoal ops c False)) \<noteq> None"
    using assms by (simp add: log_and_getGoal_stm)
  ultimately show ?thesis
    using finally_updateDiagnostics_ends[of "log_and_getGoal ops c False" ops] by simp
qed

lemma getGoal_guard:
  assumes "stm c = None \<or> (\<exists>s. stm c = Some s \<and> \<not> stm_isRunning ops s)"
  shows "getGoal ops c = (c, [], Inr \<lparr>goal = NotRunning, focus = None\<rparr>)"
  using assms by (auto simp: getGoal_def)

lemma diagnostics_of_errors_shape:
  "length (diagnostics_of_errors es) = length es
   \<and> map diag_range (diagnostics_of_errors es) = map err_range es
   \<and> map diag_message (diagnostics_of_errors es) = map err_message es
   \<and> (\<forall>d \<in> set (diagnostics_of_errors es). severity d = SevError)"
  by (auto simp: diagnostics_of_errors_def Diagnostic_create_def)

text \<open>
  C1 as stated (after every controller operation, \<open>getGoal\<close> included, the diagnostics are
  rebuilt from the errors of the state machine and sent) fails: on a document whose state
  machine holds one error and has been shut down, \<open>getGoal\<close> answers \<open>not-running\<close>
  and sends nothing at all.
\<close>

theorem getGoal_not_running_sends_nothing:
  "map_option (stm_isRunning (toy_ops 100)) (stm failed_closed_document) = Some False
   \<and> map_option (\<lambda>s. length (stm_getErrors (toy_ops 100) s)) (stm failed_closed_document)
       = Some 1
   \<and> fst (snd (getGoal (toy_ops 100) failed_closed_document)) = []
   \<and> snd (snd (getGoal (toy_ops 100) failed_closed_document))
       = Inr \<lparr>goal = NotRunning, focus = None\<rparr>"
  by code_simp

text \<open>
  C1, amended: after each of \<open>stepForward\<close>, \<open>stepBackward\<close>, \<open>interpretToPoint\<close> and
  \<open>interpretToEnd\<close>, and after \<open>getGoal\<close> when the state machine is running, the last
  thing sent is a diagnostics notification that carries the whole list built anew from the
  errors of the controller's state machine of that moment: one diagnostic per error, in
  order, with the error's range and message and the severity Error.  \<open>getGoal\<close> without
  a running state machine returns \<open>not-running\<close> and sends nothing.
\<close>

theorem diagnostics_after_operation:
  "(x = stepForward E ops c tok \<or> x = stepBackward ops c tok
      \<or> x = interpretToPoint E ops c offset tok \<or> x = interpretToEnd E ops c tok
      \<or> (x = getGoal ops c \<and> (\<exists>s. stm c = Some s \<and> stm_isRunning ops s))
    \<longrightarrow> (\<exists>t0 s'. stm (fst x) = Some s'
           \<and> fst (snd x)
               = t0 @ [Notify (SendDiagnostics (diagnostics_of_errors (stm_getErrors ops s')))]
           \<and> length (diagnostics_of_errors (stm_getErrors ops s')) = length (stm_getErrors ops s')
           \<and> map diag_range (diagnostics_of_errors (stm_getErrors ops s'))
               = map err_range (stm_getErrors ops s')
           \<and> map diag_message (diagnostics_of_errors (stm_getErrors ops s'))
               = map err_message (stm_getErrors ops s')
           \<and> (\<forall>d \<in> set (diagnostics_of_errors (stm_getErrors ops s')). severity d = SevError)))
   \<and> (stm c = None \<or> (\<exists>s. stm c = Some s \<and> \<not> stm_isRunning ops s)
        \<longrightarrow> getGoal ops c = (c, [], Inr \<lparr>goal = NotRunning, focus = None\<rparr>))"
proof (intro conjI impI)
  assume "x = stepForward E ops c tok \<or> x = stepBackward ops c tok
      \<or> x = interpretToPoint E ops c offset tok \<or> x = interpretToEnd E ops c tok
      \<or> (x = getGoal ops c \<and> (\<exists>s. stm c = Some s \<and> stm_isRunning ops s))"
  then have "\<exists>t0 s'. stm (fst x) = Some s'
      \<and> fst (snd x) = t0 @ [Notify (SendDiagnostics (diagnostics_of_errors (stm_getErrors ops s')))]"
    using stepForward_ends[of E ops c tok] stepBackward_ends[of ops c tok]
      interpretToPoint_ends[of E ops c offset tok] interpretToEnd_ends[of E ops c tok]
      getGoal_running_ends[of c _ ops]
    by blast
  then show "\<exists>t0 s'. stm (fst x) = Some s'
           \<and> fst (snd x)
               = t0 @ [Notify (SendDiagnostics (diagnostics_of_errors (stm_getErrors ops s')))]
           \<and> length (diagnostics_of_errors (stm_getErrors ops s')) = length (stm_getErrors ops s')
           \<and> map diag_range (diagnostics_of_errors (stm_getErrors ops s'))
               = map err_range (stm_getErrors ops s')
           \<and> map diag_message (diagnostics_of_errors (stm_getErrors ops s'))
               = map err_message (stm_getErrors ops s')
           \<and> (\<forall>d \<in> set (diagnostics_of_errors (stm_getErrors ops s')). severity d = SevError)"
    using diagnostics_of_errors_shape by blast
next
  assume "stm c = None \<or> (\<exists>s. stm c = Some s \<and> \<not> stm_isRunning ops s)"
  then show "getGoal ops c = (c, [], Inr \<lparr>goal = NotRunning, focus = None\<rparr>)"
    by (rule getGoal_guard)
qed

theorem diagnostics_after_operation_witness:
  "(\<exists>t0 s'. stm (fst (stepForward model_env (toy_ops 100) (new_document ''Fail.'') False)) = Some s'
       \<and> fst (snd (stepForward model_env (toy_ops 100) (new_document ''Fail.'') False))
           = t0 @ [Notify (SendDiagnostics
                     (diagnostics_of_errors (stm_getErrors (toy_ops 100) s')))])
   \<and> map_option toy_running (stm failed_closed_document) = Some False
   \<and> getGoal (toy_ops 100) failed_closed_document
       = (failed_closed_document, [], Inr \<lparr>goal = NotRunning, focus = None\<rparr>)"
proof -
  have "\<exists>t0 s'. stm (fst (stepForward model_env (toy_ops 100) (new_document ''Fail.'') False)) = Some s'
       \<and> fst (snd (stepForward model_env (toy_ops 100) (new_document ''Fail.'') False))
           = t0 @ [Notify (SendDiagnostics
                     (diagnostics_of_errors (stm_getErrors (toy_ops 100) s')))]"
    using diagnostics_after_operation
            [of "stepForward model_env (toy_ops 100) (new_document ''Fail.'') False"
                model_env "toy_ops 100" "new_document ''Fail.''" False 0]
    by blast
  moreover have "getGoal (toy_ops 100) failed_closed_document
       = (failed_closed_document, [], Inr \<lparr>goal = NotRunning, focus = None\<rparr>)"
    using diagnostics_after_operation
            [of "getGoal (toy_ops 100) failed_closed_document" model_env "toy_ops 100"
                failed_closed_document False 0]
      failed_closed_document_dead
    by blast
  ultimately show ?thesis
    using failed_closed_document_stm by blast
qed

subsection \<open>Commands on a state machine that is not running\<close>

lemma assertStm_dead:
  assumes "stm c = None \<or> (\<exists>s. stm c = Some s \<and> \<not> stm_isRunning ops s)"
  shows "assertStm ops c = (fst (resetCoq ops c), [StmCall CallNew])"
  using assms by (auto simp: assertStm_def resetCoq_def)

lemma assertStm_running:
  assumes "stm c = Some s" and "stm_isRunning ops s"
  shows "assertStm ops c = (c, [])"
  using assms by (simp add: assertStm_def)

lemma assertStm_fresh:
  assumes "stm_isRunning ops (stm_new ops (coqtopSettings c))"
  shows "assertStm ops (fst (resetCoq ops c)) = (fst (resetCoq ops c), [])"
  using assms by (simp add: assertStm_def resetCoq_def)

lemma resetCoq_documentText: "documentText (fst (resetCoq ops c)) = documentText c"
  by (simp add: resetCoq_def)

lemma stepForward_dead:
  assumes "stm c = None \<or> (\<exists>s. stm c = Some s \<and> \<not> stm_isRunning ops s)"
    and "stm_isRunning ops (stm_new ops (coqtopSettings c))"
  shows "stepForward E ops c tok
           = after [StmCall CallNew] (stepForward E ops (fst (resetCoq ops c)) tok)"
  by (simp add: stepForward_def assertStm_dead[OF assms(1)] assertStm_fresh[OF assms(2)]
        finally_after after_Nil)

lemma stepBackward_dead:
  assumes "stm c = None \<or> (\<exists>s. stm c = Some s \<and> \<not> stm_isRunning ops s)"
    and "stm_isRunning ops (stm_new ops (coqtopSettings c))"
  shows "stepBackward ops c tok
           = after [StmCall CallNew] (stepBackward ops (fst (resetCoq ops c)) tok)"
  by (simp add: stepBackward_def assertStm_dead[OF assms(1)] assertStm_fresh[OF assms(2)]
        finally_after after_Nil)

lemma interpretToPoint_dead:
  assumes "stm c = None \<or> (\<exists>s. stm c = Some s \<and> \<not> stm_isRunning ops s)"
    and "stm_isRunning ops (stm_new ops (coqtopSettings c))"
  shows "interpretToPoint E ops c offset tok
           = after [StmCall CallNew] (interpretToPoint E ops (fst (resetCoq ops c)) offset tok)"
  by (simp add: interpretToPoint_def assertStm_dead[OF assms(1)] assertStm_fresh[OF assms(2)]
        finally_after after_Nil)

lemma interpretToEnd_dead:
  assumes "stm c = None \<or> (\<exists>s. stm c = Some s \<and> \<not> stm_isRunning ops s)"
    and "stm_isRunning ops (stm_new ops (coqtopSettings c))"
  shows "interpretToEnd E ops c tok
           = after [StmCall CallNew] (interpretToEnd E ops (fst (resetCoq ops c)) tok)"
  by (simp add: interpretToEnd_def assertStm_dead[OF assms(1)] assertStm_fresh[OF assms(2)]
        finally_after after_Nil resetCoq_documentText)

lemma after_Cons_trace: "\<exists>c' t r. after (e # t0) x = (c', e # t, r)"
  by (cases x) (simp add: after_def)

lemma dead_trace_starts_with_new:
  assumes "stm c = None \<or> (\<exists>s. stm c = Some s \<and> \<not> stm_isRunning ops s)"
  shows "\<exists>c' t r. stepForward E ops c tok = (c', StmCall CallNew # t, r)"
    and "\<exists>c' t r. stepBackward ops c tok = (c', StmCall CallNew # t, r)"
    and "\<exists>c' t r. interpretToPoint E ops c offset tok = (c', StmCall CallNew # t, r)"
    and "\<exists>c' t r. interpretToEnd E ops c tok = (c', StmCall CallNew # t, r)"
  by (simp_all add: stepForward_def stepBackward_def interpretToPoint_def interpretToEnd_def
        assertStm_dead[OF assms] finally_after after_Cons_trace)

text \<open>
  C2 as stated (after a shutdown every mutating operation returns \<open>NotRunning\<close> and none
  restarts the prover) fails: on a document whose machine \<open>close\<close> has shut down,
  \<open>stepForward\<close> creates a new machine, steps it over \<open>A.\<close> and returns a proof view.
\<close>

theorem stepForward_after_shutdown_restarts:
  "map_option (stm_isRunning (toy_ops 100)) (stm closed_document) = Some False
   \<and> snd (stepForward model_env (toy_ops 100) closed_document False)
       = ([StmCall CallNew, StmCall CallStepForward,
           Notify (SendHighlightUpdates
             [\<lparr>style = HlProcessing,
               hl_range = Range_create (Position_create 0 0) (Position_create 0 2)\<rparr>]),
           Notify (SendHighlightUpdates
             [\<lparr>style = HlProcessed,
               hl_range = Range_create (Position_create 0 0) (Position_create 0 2)\<rparr>]),
           StmCall CallLogDebuggingSentences, StmCall CallGetGoal,
           Notify (SendDiagnostics [])],
          Inr \<lparr>goal = ProofView [''A.''], focus = Some (Position_create 0 2)\<rparr>)"
  by code_simp

text \<open>
  C2, amended: when the controller has no state machine or one that is not running,
  \<open>getGoal\<close> returns \<open>not-running\<close> and leaves everything as it is, whereas each of
  \<open>stepForward\<close>, \<open>stepBackward\<close>, \<open>interpretToPoint\<close> and \<open>interpretToEnd\<close> first
  creates a new state machine (\<open>assertStm\<close>) and, where a new machine reports running,
  then does exactly what it does on the document \<open>resetCoq\<close> leaves.
\<close>

theorem dead_machine_is_replaced:
  assumes "stm c = None \<or> (\<exists>s. stm c = Some s \<and> \<not> stm_isRunning ops s)"
  shows "getGoal ops c = (c, [], Inr \<lparr>goal = NotRunning, focus = None\<rparr>)
    \<and> (\<exists>c' t r. stepForward E ops c tok = (c', StmCall CallNew # t, r))
    \<and> (\<exists>c' t r. stepBackward ops c tok = (c', StmCall CallNew # t, r))
    \<and> (\<exists>c' t r. interpretToPoint E ops c offset tok = (c', StmCall CallNew # t, r))
    \<and> (\<exists>c' t r. interpretToEnd E ops c tok = (c', StmCall CallNew # t, r))
    \<and> (stm_isRunning ops (stm_new ops (coqtopSettings c)) \<longrightarrow>
         stepForward E ops c tok
           = after [StmCall CallNew] (stepForward E ops (fst (resetCoq ops c)) tok)
       \<and> stepBackward ops c tok
           = after [StmCall CallNew] (stepBackward ops (fst (resetCoq ops c)) tok)
       \<and> interpretToPoint E ops c offset tok
           = after [StmCall CallNew] (interpretToPoint E ops (fst (resetCoq ops c)) offset tok)
       \<and> interpretToEnd E ops c tok
           = after [StmCall CallNew] (interpretToEnd E ops (fst (resetCoq ops c)) tok))"
  using getGoal_guard[OF assms] dead_trace_starts_with_new[OF assms]
    stepForward_dead[OF assms] stepBackward_dead[OF assms]
    interpretToPoint_dead[OF assms] interpretToEnd_dead[OF assms]
  by blast

theorem dead_machine_is_replaced_witness:
  "stm closed_document = Some \<lparr>toy_running = False, toy_spine = [], toy_errors = []\<rparr>
   \<and> stm_isRunning (toy_ops 100)
        (stm_new (toy_ops 100) (coqtopSettings closed_document))
   \<and> getGoal (toy_ops 100) closed_document
       = (closed_document, [], Inr \<lparr>goal = NotRunning, focus = None\<rparr>)
   \<and> (\<exists>c' t r. stepForward model_env (toy_ops 100) closed_document False
                  = (c', StmCall CallNew # t, r))
   \<and> stepForward model_env (toy_ops 100) closed_document False
       = after [StmCall CallNew]
           (stepForward model_env (toy_ops 100)
              (fst (resetCoq (toy_ops 100) closed_document)) False)"
proof -
  have dead: "stm closed_document = None
      \<or> (\<exists>s. stm closed_document = Some s \<and> \<not> stm_isRunning (toy_ops 100) s)"
    by (simp add: closed_document_stm toy_ops_def)
  show ?thesis
    using dead_machine_is_replaced[OF dead, of model_env False 0] closed_document_stm
      toy_new_running[of 100 "coqtopSettings closed_document"]
    by blast
qed

subsection \<open>Text edits and the version\<close>

text \<open>
  C3 as stated (a batch whose version is not greater than the document's is rejected and
  changes nothing) fails: on a document at version 5 a batch with version 3 is applied,
  the text changes and the version becomes 3.
\<close>

theorem applyTextEdits_stale_version:
  "version versioned_document = 5
   \<and> documentText versioned_document = ''A.''
   \<and> version (fst (applyTextEdits model_env (toy_ops 100) versioned_document [example_change] 3)) = 3
   \<and> documentText (fst (applyTextEdits model_env (toy_ops 100) versioned_document [example_change] 3))
       = ''B.''"
  by code_simp

text \<open>
  C3, amended: \<open>applyTextEdits\<close> compares no versions.  For every batch and every new
  version, greater than the current one or not, it hands the sorted batch to the state
  machine (an exception there, or a missing machine, only writes to the console), applies
  every change to the text and sets the version to the new one.
\<close>

theorem applyTextEdits_any_version:
  "version (fst (applyTextEdits E ops c changes newVersion)) = newVersion
   \<and> documentText (fst (applyTextEdits E ops c changes newVersion))
       = apply_sorted_changes E (js_sort changeCompare changes) (documentText c)
   \<and> (case stm c of
        None \<Rightarrow> snd (applyTextEdits E ops c changes newVersion) = [ConsoleError TypeError]
      | Some s \<Rightarrow>
          \<exists>t. snd (applyTextEdits E ops c changes newVersion)
                = StmCall (CallApplyChanges (js_sort changeCompare changes) newVersion) # t)"
  by (auto simp: applyTextEdits_def Let_def split_beta run_stm_text split: option.splits)

subsection \<open>The order of the changes of a batch\<close>

lemma positionIsAfter_asym: "positionIsAfter p q \<Longrightarrow> \<not> positionIsAfter q p"
  by (auto simp: positionIsAfter_def)

lemma positionIsAfter_trans:
  "positionIsAfter p q \<Longrightarrow> positionIsAfter q r \<Longrightarrow> positionIsAfter p r"
  by (auto simp: positionIsAfter_def)

lemma positionIsAfter_total:
  "p \<noteq> q \<Longrightarrow> \<not> positionIsAfter q p \<Longrightarrow> positionIsAfter p q"
  by (cases p, cases q) (auto simp: positionIsAfter_def)

lemma changeCompare_positive:
  "changeCompare tmp element > 0
     \<longleftrightarrow> \<not> positionIsAfter (change_start tmp) (change_start element)"
  by (simp add: changeCompare_def change_start_def)

lemma js_insert_mset: "mset (js_insert comparefn element prefix) = add_mset element (mset prefix)"
  by (induction prefix) auto

lemma js_insert_set: "set (js_insert comparefn element prefix) = insert element (set prefix)"
  by (induction prefix) auto

lemma foldl_js_insert_mset:
  "mset (foldl (\<lambda>prefix element. js_insert comparefn element prefix) acc a) = mset acc + mset a"
  by (induction a arbitrary: acc) (auto simp: js_insert_mset)

lemma js_sort_mset: "mset (js_sort comparefn a) = mset a"
  by (simp add: js_sort_def foldl_js_insert_mset)

lemma js_insert_sorted:
  assumes "sorted_wrt (\<lambda>x y. \<not> positionIsAfter (change_start x) (change_start y)) prefix"
  shows "sorted_wrt (\<lambda>x y. \<not> positionIsAfter (change_start x) (change_start y))
           (js_insert changeCompare element prefix)"
  using assms
proof (induction prefix)
  case Nil
  then show ?case by simp
next
  case (Cons tmp rest)
  show ?case
  proof (cases "changeCompare tmp element > 0")
    case True
    then have "\<not> positionIsAfter (change_start tmp) (change_start element)"
      by (simp add: changeCompare_positive)
    with Cons True show ?thesis
      by (auto simp: js_insert_set)
  next
    case False
    then have after: "positionIsAfter (change_start tmp) (change_start element)"
      by (simp add: changeCompare_positive)
    have "\<not> positionIsAfter (change_start element) (change_start y)"
      if "y \<in> set (tmp # rest)" for y
    proof
      assume "positionIsAfter (change_start element) (change_start y)"
      with after have "positionIsAfter (change_start tmp) (change_start y)"
        by (rule positionIsAfter_trans)
      moreover have "y = tmp \<or> \<not> positionIsAfter (change_start tmp) (change_start y)"
        using that Cons.prems by auto
      ultimately show False
        using positionIsAfter_asym by blast
    qed
    with Cons.prems False show ?thesis by simp
  qed
qed

lemma foldl_js_insert_sorted:
  "sorted_wrt (\<lambda>x y. \<not> positionIsAfter (change_start x) (change_start y)) acc \<Longrightarrow>
   sorted_wrt (\<lambda>x y. \<not> positionIsAfter (change_start x) (change_start y))
     (foldl (\<lambda>prefix element. js_insert changeCompare element prefix) acc a)"
  by (induction a arbitrary: acc) (auto simp: js_insert_sorted)

lemma js_sort_latest_first:
  "sorted_wrt (\<lambda>a b. \<not> positionIsAfter (change_start b) (change_start a))
     (js_sort changeCompare changes)"
  using foldl_js_insert_sorted[of "[]" changes]
  by (simp add: js_sort_def sorted_wrt_rev)

lemma sorted_wrt_distinct_strict:
  "sorted_wrt (\<lambda>a b. \<not> positionIsAfter (change_start b) (change_start a)) xs \<Longrightarrow>
   distinct (map change_start xs) \<Longrightarrow>
   sorted_wrt (\<lambda>a b. positionIsAfter (change_start a) (change_start b)) xs"
proof (induction xs)
  case Nil
  then show ?case by simp
next
  case (Cons x xs)
  have "positionIsAfter (change_start x) (change_start y)" if "y \<in> set xs" for y
  proof -
    from that Cons.prems(2) have "change_start x \<noteq> change_start y" by auto
    moreover from that Cons.prems(1)
    have "\<not> positionIsAfter (change_start y) (change_start x)" by simp
    ultimately show ?thesis by (rule positionIsAfter_total)
  qed
  with Cons show ?case by simp
qed

lemma js_sort_strict:
  assumes "distinct (map change_start changes)"
  shows "sorted_wrt (\<lambda>a b. positionIsAfter (change_start a) (change_start b))
           (js_sort changeCompare changes)"
proof -
  have "mset (map change_start (js_sort changeCompare changes)) = mset (map change_start changes)"
    by (simp add: js_sort_mset)
  then have "distinct (map change_start (js_sort changeCompare changes))"
    using assms by (metis distinct_count_atmost_1 set_mset_mset)
  with js_sort_latest_first show ?thesis
    by (rule sorted_wrt_distinct_strict)
qed

lemma js_substring_prefix:
  "0 \<le> b \<Longrightarrow> nat b \<le> length d \<Longrightarrow> js_substring d 0 b = take (nat b) d"
  by (auto simp: js_substring_def Let_def min_def max_def)

lemma applyEditToDocument_prefix:
  assumes "0 \<le> b" and "nat b \<le> length d"
  shows "take (nat b) (applyEditToDocument d b change) = take (nat b) d"
  using assms by (simp add: applyEditToDocument_def js_substring_prefix)

lemma fold_offsets_stable:
  assumes "take (nat bound) d = take (nat bound) doc"
    and "\<forall>x \<in> set cs. 0 \<le> offsetAt_text E doc (change_start x)
            \<and> offsetAt_text E doc (change_start x) < bound
            \<and> offsetAt_text E doc (change_start x) \<le> int (length doc)"
    and "sorted_wrt (\<lambda>a b. offsetAt_text E doc (change_start b)
                            < offsetAt_text E doc (change_start a)) cs"
    and "\<forall>x \<in> set cs. \<forall>d' m. take m d' = take m doc
            \<and> offsetAt_text E doc (change_start x) < int m
            \<longrightarrow> offsetAt_text E d' (change_start x) = offsetAt_text E doc (change_start x)"
  shows "fold (\<lambda>change d. applyEditToDocument d
                  (offsetAt_text E d (range_start (change_range change))) change) cs d
       = fold (\<lambda>change d. applyEditToDocument d
                  (offsetAt_text E doc (change_start change)) change) cs d"
  using assms
proof (induction cs arbitrary: d bound)
  case Nil
  then show ?case by simp
next
  case (Cons x xs)
  define o1 where "o1 = offsetAt_text E doc (change_start x)"
  have o1: "0 \<le> o1" "o1 < bound" "o1 \<le> int (length doc)"
    using Cons.prems(2) by (simp_all add: o1_def)
  have live: "offsetAt_text E d (range_start (change_range x)) = o1"
  proof -
    have agree: "take (nat bound) d = take (nat bound) doc \<and> o1 < int (nat bound)"
      using Cons.prems(1) o1 by simp
    have "\<forall>d' m. take m d' = take m doc \<and> o1 < int m
            \<longrightarrow> offsetAt_text E d' (change_start x) = o1"
      using Cons.prems(4) by (simp add: o1_def)
    with agree have "offsetAt_text E d (change_start x) = o1" by blast
    then show ?thesis by (simp add: change_start_def)
  qed
  define d1 where "d1 = applyEditToDocument d o1 x"
  have len: "nat o1 \<le> length d"
  proof -
    have "length (take (nat bound) d) = length (take (nat bound) doc)"
      using Cons.prems(1) by simp
    then have "min (length d) (nat bound) = min (length doc) (nat bound)"
      by simp
    then show ?thesis using o1 by linarith
  qed
  have "take (nat o1) d1 = take (nat o1) d"
    unfolding d1_def using o1(1) len by (rule applyEditToDocument_prefix)
  also have "\<dots> = take (nat o1) (take (nat bound) d)"
    using o1 by (simp add: min_def)
  also have "\<dots> = take (nat o1) (take (nat bound) doc)"
    using Cons.prems(1) by simp
  also have "\<dots> = take (nat o1) doc"
    using o1 by (simp add: min_def)
  finally have pre: "take (nat o1) d1 = take (nat o1) doc" .
  have bnd: "\<forall>y \<in> set xs. 0 \<le> offsetAt_text E doc (change_start y)
            \<and> offsetAt_text E doc (change_start y) < o1
            \<and> offsetAt_text E doc (change_start y) \<le> int (length doc)"
    using Cons.prems(2,3) by (auto simp: o1_def)
  have srt: "sorted_wrt (\<lambda>a b. offsetAt_text E doc (change_start b)
                            < offsetAt_text E doc (change_start a)) xs"
    using Cons.prems(3) by simp
  have loc: "\<forall>x \<in> set xs. \<forall>d' m. take m d' = take m doc
            \<and> offsetAt_text E doc (change_start x) < int m
            \<longrightarrow> offsetAt_text E d' (change_start x) = offsetAt_text E doc (change_start x)"
    using Cons.prems(4) by simp
  have "fold (\<lambda>change d. applyEditToDocument d
                  (offsetAt_text E d (range_start (change_range change))) change) xs d1
       = fold (\<lambda>change d. applyEditToDocument d
                  (offsetAt_text E doc (change_start change)) change) xs d1"
    using pre bnd srt loc by (rule Cons.IH)
  then show ?case
    by (simp add: live d1_def o1_def)
qed

lemma offset_walk_ge: "acc \<le> offset_walk l ch acc s"
  by (induction l ch acc s rule: offset_walk.induct) (auto simp: Let_def)

lemma offset_walk_local:
  "take m d' = take m d \<Longrightarrow> offset_walk l ch acc d < acc + m \<Longrightarrow>
   offset_walk l ch acc d' = offset_walk l ch acc d"
proof (induction l ch acc d arbitrary: d' m rule: offset_walk.induct)
  case (1 ch acc s)
  then show ?case by simp
next
  case (2 l ch acc)
  then have "m > 0" by simp
  with 2 have "d' = []" by (cases m) auto
  then show ?case by simp
next
  case (3 l ch acc x xs)
  have ge: "acc + 1 \<le> offset_walk (Suc l) ch acc (x # xs)"
    using offset_walk_ge[of "acc + 1"] by (simp split: if_splits)
  with "3.prems"(2) have m2: "m \<ge> 2" by linarith
  then obtain m' where m': "m = Suc (Suc m')"
    by (metis Suc_le_D numeral_2_eq_2 Suc_le_mono)
  from "3.prems"(1) m' obtain xs' where d': "d' = x # xs'" and tk: "take (Suc m') xs' = take (Suc m') xs"
    by (cases d') auto
  define B where "B \<longleftrightarrow> x = CHR 0x0A
      \<or> (x = CHR 0x0D \<and> (case xs of [] \<Rightarrow> True | y # _ \<Rightarrow> y \<noteq> CHR 0x0A))"
  have hd: "(case xs' of [] \<Rightarrow> True | y # _ \<Rightarrow> y \<noteq> CHR 0x0A)
          = (case xs of [] \<Rightarrow> True | y # _ \<Rightarrow> y \<noteq> CHR 0x0A)"
    using tk by (cases xs; cases xs') auto
  have eq: "offset_walk (Suc l) ch acc (x # xs)
      = (if B then offset_walk l ch (acc + 1) xs else offset_walk (Suc l) ch (acc + 1) xs)"
    by (simp add: B_def)
  have eq': "offset_walk (Suc l) ch acc (x # xs')
      = (if B then offset_walk l ch (acc + 1) xs' else offset_walk (Suc l) ch (acc + 1) xs')"
    using hd by (simp add: B_def)
  show ?case
  proof (cases B)
    case True
    then have "offset_walk l ch (acc + 1) xs < (acc + 1) + Suc m'"
      using "3.prems"(2) m' eq by simp
    with True tk have "offset_walk l ch (acc + 1) xs' = offset_walk l ch (acc + 1) xs"
      using "3.IH"(1) unfolding B_def by blast
    with True show ?thesis by (simp only: d' eq eq' if_True)
  next
    case False
    then have "offset_walk (Suc l) ch (acc + 1) xs < (acc + 1) + Suc m'"
      using "3.prems"(2) m' eq by simp
    with False tk have "offset_walk (Suc l) ch (acc + 1) xs' = offset_walk (Suc l) ch (acc + 1) xs"
      using "3.IH"(2) unfolding B_def by blast
    with False show ?thesis by (simp only: d' eq eq' if_False)
  qed
qed

lemma offsetAt_model_local:
  "take m d' = take m d \<Longrightarrow> offsetAt_model d p < int m \<Longrightarrow> offsetAt_model d' p = offsetAt_model d p"
  using offset_walk_local[of m d' d "line p" "character p" 0]
  by (simp add: offsetAt_model_def)

lemma example_batch_sorted:
  "js_sort changeCompare example_batch = rev example_batch"
  by code_simp

text \<open>
  C5 (the changes of a batch are applied latest start first, so that the start offset of
  each change stays valid during the batch, and the version is set with the batch).  The
  order \<open>applyTextEdits\<close> applies the changes in is a rearrangement of the batch in which
  no change starts after one before it, and each starts before the one before it when the
  starts differ; the text afterwards is the result of applying the changes in that order
  and the version is the new one.  And where the start offsets, taken in the text before
  the batch, lie within the text, decrease strictly along that order, and an offset
  depends on the text before it only, each offset as looked up during the loop is the one
  taken before the batch.
\<close>

theorem applyTextEdits_reverse_order:
  "mset (js_sort changeCompare changes) = mset changes
   \<and> sorted_wrt (\<lambda>a b. \<not> positionIsAfter (change_start b) (change_start a))
        (js_sort changeCompare changes)
   \<and> (distinct (map change_start changes) \<longrightarrow>
        sorted_wrt (\<lambda>a b. positionIsAfter (change_start a) (change_start b))
          (js_sort changeCompare changes))
   \<and> documentText (fst (applyTextEdits E ops c changes newVersion))
       = apply_sorted_changes E (js_sort changeCompare changes) (documentText c)
   \<and> version (fst (applyTextEdits E ops c changes newVersion)) = newVersion
   \<and> ((\<forall>x \<in> set changes. 0 \<le> offsetAt_text E (documentText c) (change_start x)
            \<and> offsetAt_text E (documentText c) (change_start x) \<le> int (length (documentText c)))
       \<and> sorted_wrt (\<lambda>a b. offsetAt_text E (documentText c) (change_start b)
                            < offsetAt_text E (documentText c) (change_start a))
            (js_sort changeCompare changes)
       \<and> (\<forall>x \<in> set changes. \<forall>d' m. take m d' = take m (documentText c)
            \<and> offsetAt_text E (documentText c) (change_start x) < int m
            \<longrightarrow> offsetAt_text E d' (change_start x)
                  = offsetAt_text E (documentText c) (change_start x))
      \<longrightarrow> apply_sorted_changes E (js_sort changeCompare changes) (documentText c)
            = precomputed_changes E (js_sort changeCompare changes) (documentText c))"
proof (intro conjI impI)
  show "mset (js_sort changeCompare changes) = mset changes"
    by (rule js_sort_mset)
  show "sorted_wrt (\<lambda>a b. \<not> positionIsAfter (change_start b) (change_start a))
        (js_sort changeCompare changes)"
    by (rule js_sort_latest_first)
  show "sorted_wrt (\<lambda>a b. positionIsAfter (change_start a) (change_start b))
          (js_sort changeCompare changes)"
    if "distinct (map change_start changes)"
    using that by (rule js_sort_strict)
  show "documentText (fst (applyTextEdits E ops c changes newVersion))
       = apply_sorted_changes E (js_sort changeCompare changes) (documentText c)"
    by (auto simp: applyTextEdits_def Let_def split_beta run_stm_text split: option.splits)
  show "version (fst (applyTextEdits E ops c changes newVersion)) = newVersion"
    by (auto simp: applyTextEdits_def Let_def split_beta split: option.splits)
next
  define doc where "doc = documentText c"
  define cs where "cs = js_sort changeCompare changes"
  assume "(\<forall>x \<in> set changes. 0 \<le> offsetAt_text E (documentText c) (change_start x)
            \<and> offsetAt_text E (documentText c) (change_start x) \<le> int (length (documentText c)))
       \<and> sorted_wrt (\<lambda>a b. offsetAt_text E (documentText c) (change_start b)
                            < offsetAt_text E (documentText c) (change_start a))
            (js_sort changeCompare changes)
       \<and> (\<forall>x \<in> set changes. \<forall>d' m. take m d' = take m (documentText c)
            \<and> offsetAt_text E (documentText c) (change_start x) < int m
            \<longrightarrow> offsetAt_text E d' (change_start x)
                  = offsetAt_text E (documentText c) (change_start x))"
  then have bnd: "\<forall>x \<in> set changes. 0 \<le> offsetAt_text E doc (change_start x)
            \<and> offsetAt_text E doc (change_start x) \<le> int (length doc)"
    and srt: "sorted_wrt (\<lambda>a b. offsetAt_text E doc (change_start b)
                            < offsetAt_text E doc (change_start a)) cs"
    and loc: "\<forall>x \<in> set changes. \<forall>d' m. take m d' = take m doc
            \<and> offsetAt_text E doc (change_start x) < int m
            \<longrightarrow> offsetAt_text E d' (change_start x) = offsetAt_text E doc (change_start x)"
    by (simp_all add: doc_def cs_def)
  have set_cs: "set cs = set changes"
    unfolding cs_def by (metis js_sort_mset set_mset_mset)
  have "fold (\<lambda>change d. applyEditToDocument d
                  (offsetAt_text E d (range_start (change_range change))) change) cs doc
       = fold (\<lambda>change d. applyEditToDocument d
                  (offsetAt_text E doc (change_start change)) change) cs doc"
  proof (rule fold_offsets_stable[where bound = "int (length doc) + 1"])
    show "take (nat (int (length doc) + 1)) doc = take (nat (int (length doc) + 1)) doc"
      by simp
    show "\<forall>x \<in> set cs. 0 \<le> offsetAt_text E doc (change_start x)
            \<and> offsetAt_text E doc (change_start x) < int (length doc) + 1
            \<and> offsetAt_text E doc (change_start x) \<le> int (length doc)"
      using bnd set_cs by auto
    show "sorted_wrt (\<lambda>a b. offsetAt_text E doc (change_start b)
                            < offsetAt_text E doc (change_start a)) cs"
      by (rule srt)
    show "\<forall>x \<in> set cs. \<forall>d' m. take m d' = take m doc
            \<and> offsetAt_text E doc (change_start x) < int m
            \<longrightarrow> offsetAt_text E d' (change_start x) = offsetAt_text E doc (change_start x)"
      using loc set_cs by simp
  qed
  then show "apply_sorted_changes E (js_sort changeCompare changes) (documentText c)
            = precomputed_changes E (js_sort changeCompare changes) (documentText c)"
    by (simp add: apply_sorted_changes_def precomputed_changes_def doc_def cs_def)
qed

theorem applyTextEdits_reverse_order_witness:
  "distinct (map change_start example_batch)
   \<and> js_sort changeCompare example_batch = rev example_batch
   \<and> mset (js_sort changeCompare example_batch) = mset example_batch
   \<and> sorted_wrt (\<lambda>a b. positionIsAfter (change_start a) (change_start b))
        (js_sort changeCompare example_batch)
   \<and> version (fst (applyTextEdits model_env (toy_ops 100) (new_document ''A. B. C.'')
                     example_batch 1)) = 1
   \<and> documentText (fst (applyTextEdits model_env (toy_ops 100) (new_document ''A. B. C.'')
                          example_batch 1))
       = apply_sorted_changes model_env (js_sort changeCompare example_batch) ''A. B. C.''
   \<and> apply_sorted_changes model_env (js_sort changeCompare example_batch) ''A. B. C.''
       = precomputed_changes model_env (js_sort changeCompare example_batch) ''A. B. C.''
   \<and> precomputed_changes model_env (js_sort changeCompare example_batch) ''A. B. C.''
       = ''XY. . C.''"
proof -
  have h1: "distinct (map change_start example_batch)"
    by code_simp
  have h2: "\<forall>x \<in> set example_batch.
       0 \<le> offsetAt_text model_env (documentText (new_document ''A. B. C.'')) (change_start x)
       \<and> offsetAt_text model_env (documentText (new_document ''A. B. C.'')) (change_start x)
           \<le> int (length (documentText (new_document ''A. B. C.'')))"
    by code_simp
  have h3: "sorted_wrt
       (\<lambda>a b. offsetAt_text model_env (documentText (new_document ''A. B. C.'')) (change_start b)
              < offsetAt_text model_env (documentText (new_document ''A. B. C.'')) (change_start a))
       (js_sort changeCompare example_batch)"
    by code_simp
  have h4: "\<forall>x \<in> set example_batch. \<forall>d' m.
       take m d' = take m (documentText (new_document ''A. B. C.''))
       \<and> offsetAt_text model_env (documentText (new_document ''A. B. C.'')) (change_start x) < int m
       \<longrightarrow> offsetAt_text model_env d' (change_start x)
            = offsetAt_text model_env (documentText (new_document ''A. B. C.'')) (change_start x)"
    by (auto simp: model_env_def intro: offsetAt_model_local)
  have h5: "precomputed_changes model_env (js_sort changeCompare example_batch) ''A. B. C.''
       = ''XY. . C.''"
    by code_simp
  show ?thesis
    using applyTextEdits_reverse_order
            [of example_batch model_env "toy_ops 100" "new_document ''A. B. C.''" 1]
      h1 h2 h3 h4 h5 example_batch_sorted
    by (simp add: new_document_fields)
qed

subsection \<open>The command generator and the target offset\<close>

text \<open>
  The generator compares nothing with \<open>endOffset\<close> before it yields a sentence of
  positive length: whatever the parser finds in \<open>substr(currentOffset, endOffset)\<close>, a
  piece of text that is \<open>endOffset\<close> characters long and so may reach beyond \<open>endOffset\<close>,
  is handed out.
\<close>

lemma gen_round_positive:
  assumes "0 < parseSentence E (js_substr doc currentOffset endOffset)"
  shows "fst (gen_round E doc endOffset currentOffset highlight)
           = Some \<lparr>cmd_text = js_substring doc currentOffset
                      (currentOffset + parseSentence E (js_substr doc currentOffset endOffset)),
                   cmd_range = Range_create (positionAt_text E doc currentOffset)
                      (positionAt_text E doc
                         (currentOffset + parseSentence E (js_substr doc currentOffset endOffset)))\<rparr>"
  using assms by (simp add: gen_round_def Let_def)

text \<open>
  C4 (the command iterator never yields a command whose end offset exceeds the target
  offset).  On the document \<open>A. B.\<close>, started at the origin with the target at offset 4,
  the iterator first yields \<open>A.\<close> and then the command \<open> B.\<close>, whose range ends at
  offset 5, beyond the target.
\<close>

theorem commandSequence_exceeds_target:
  "offsetAt_model ''A. B.'' example_target = 4
   \<and> fst (snd (commandSequenceGenerator_next model_env ''A. B.'' example_gen0))
       = Some \<lparr>cmd_text = ''A.'',
               cmd_range = Range_create (Position_create 0 0) (Position_create 0 2)\<rparr>
   \<and> fst (snd (commandSequenceGenerator_next model_env ''A. B.'' example_gen1))
       = Some \<lparr>cmd_text = '' B.'',
               cmd_range = Range_create (Position_create 0 2) (Position_create 0 5)\<rparr>
   \<and> offsetAt_model ''A. B.'' (Position_create 0 5) = 5"
  by code_simp

subsection \<open>The Parsing highlight of a command\<close>

text \<open>
  A generator that runs without the flag sends nothing, whenever it is resumed, and
  stays without the flag; the generators of \<open>commandSequence\<close> are such, whatever flag
  \<open>commandSequence\<close> was called with.
\<close>

lemma generator_without_flag:
  assumes "\<not> gen_highlight g"
  shows "fst (commandSequenceGenerator_next E doc g) = []
         \<and> \<not> gen_highlight (snd (snd (commandSequenceGenerator_next E doc g)))"
  using assms by (cases g) (auto simp: gen_round_def Let_def)

lemma commandSequence_without_flag: "\<not> gen_highlight (commandSequence highlight begin end_opt)"
  by (simp add: commandSequence_def commandSequenceGenerator_def)


subsection \<open>Highlights of sentence statuses\<close>

lemma every_status_reported: "\<exists>cb. reported_status cb = Some (st, r)"
proof (cases st)
  case SpParsed
  then have "reported_status (CbSentenceStatusUpdate r StParsed) = Some (st, r)"
    by (simp add: reported_status_def)
  then show ?thesis ..
next
  case SpProcessing
  then have "reported_status (CbSentenceStatusUpdate r StProcessingInput) = Some (st, r)"
    by (simp add: reported_status_def)
  then show ?thesis ..
next
  case SpInProgress
  then have "reported_status (CbSentenceStatusUpdate r StInProgress) = Some (st, r)"
    by (simp add: reported_status_def)
  then show ?thesis ..
next
  case SpIncomplete
  then have "reported_status (CbSentenceStatusUpdate r StIncomplete) = Some (st, r)"
    by (simp add: reported_status_def)
  then show ?thesis ..
next
  case SpProcessed
  then have "reported_status (CbSentenceStatusUpdate r StProcessed) = Some (st, r)"
    by (simp add: reported_status_def)
  then show ?thesis ..
next
  case SpComplete
  then have "reported_status (CbSentenceStatusUpdate r StComplete) = Some (st, r)"
    by (simp add: reported_status_def)
  then show ?thesis ..
next
  case SpError
  then have "reported_status (CbError r r []) = Some (st, r)"
    by (simp add: reported_status_def)
  then show ?thesis ..
next
  case SpCleared
  then have "reported_status (CbClearSentence r) = Some (st, r)"
    by (simp add: reported_status_def)
  then show ?thesis ..
qed

text \<open>
  C7 (every sentence status event is answered by a highlight whose style is the image of
  the status under the table of the specification, and by no other highlight).  Each of
  the eight statuses of the table is reported by some callback; and whatever callback
  reports status \<open>st\<close> for range \<open>r\<close>, the first thing the controller sends is the
  single highlight of style \<open>spec_highlight st\<close> over \<open>r\<close>, and it sends no further
  highlight for that callback.
\<close>

theorem status_highlight_mapping:
  "(\<forall>st' r'. \<exists>cb'. reported_status cb' = Some (st', r'))
   \<and> (reported_status cb = Some (st, r) \<longrightarrow>
        (\<exists>rest. snd (snd (handle_callback ops c cb))
              = Notify (SendHighlightUpdates [\<lparr>style = spec_highlight st, hl_range = r\<rparr>]) # rest
          \<and> (\<forall>hs. Notify (SendHighlightUpdates hs) \<notin> set rest)))"
proof (intro conjI allI impI)
  show "\<exists>cb'. reported_status cb' = Some (st', r')" for st' r'
    by (rule every_status_reported)
  assume "reported_status cb = Some (st, r)"
  then show "\<exists>rest. snd (snd (handle_callback ops c cb))
              = Notify (SendHighlightUpdates [\<lparr>style = spec_highlight st, hl_range = r\<rparr>]) # rest
          \<and> (\<forall>hs. Notify (SendHighlightUpdates hs) \<notin> set rest)"
    by (cases cb)
       (auto simp: reported_status_def handle_callback_def onCoqStateStatusUpdate_def
          onClearSentence_def onCoqStateError_def highlightSentence_def spec_highlight_def
          sentenceStatusToHighlightType_def updateDiagnostics_def
          split: SentenceStatus.splits option.splits sum.splits)
qed

theorem status_highlight_mapping_witness:
  "reported_status (CbError (Range_create (Position_create 0 2) (Position_create 0 8))
                            (Range_create (Position_create 0 2) (Position_create 0 8)) ''syntax'')
     = Some (SpError, Range_create (Position_create 0 2) (Position_create 0 8))
   \<and> (\<exists>rest. snd (snd (handle_callback (toy_ops 100) (new_document ''A. Fail.'')
                (CbError (Range_create (Position_create 0 2) (Position_create 0 8))
                         (Range_create (Position_create 0 2) (Position_create 0 8)) ''syntax'')))
              = Notify (SendHighlightUpdates
                  [\<lparr>style = spec_highlight SpError,
                    hl_range = Range_create (Position_create 0 2) (Position_create 0 8)\<rparr>]) # rest
          \<and> (\<forall>hs. Notify (SendHighlightUpdates hs) \<notin> set rest))"
  using status_highlight_mapping
          [of "CbError (Range_create (Position_create 0 2) (Position_create 0 8))
                       (Range_create (Position_create 0 2) (Position_create 0 8)) ''syntax''"
              SpError "Range_create (Position_create 0 2) (Position_create 0 8)"
              "toy_ops 100" "new_document ''A. Fail.''"]
  by (simp add: reported_status_def)

subsection \<open>The death of the prover\<close>

text \<open>
  C6 as stated (a reset notification is sent whenever the prover dies, with or without a
  reason) fails: told of a death without a reason, the controller sends nothing and keeps
  its state machine.
\<close>

theorem onCoqDied_without_reason:
  "onCoqDied (toy_ops 100) (new_document ''A.'') None = (new_document ''A.'', [])"
  by (simp add: onCoqDied_def js_falsy_string_def)

text \<open>
  C6, amended: when the callback \<open>coqDied\<close> carries a non-empty reason, the controller
  shuts the old machine down if it still runs, installs a new machine and then sends the
  reset notification; without a reason, or with the empty one, it does nothing.
\<close>

theorem onCoqDied_reset:
  "onCoqDied ops c error =
     (if error = None \<or> error = Some [] then (c, [])
      else (c\<lparr>stm := Some (stm_new ops (coqtopSettings c))\<rparr>,
            (case stm c of
               None \<Rightarrow> []
             | Some s \<Rightarrow> if stm_isRunning ops s then [StmCall CallShutdown] else [])
            @ [StmCall CallNew, Notify SendReset]))"
  by (auto simp: onCoqDied_def js_falsy_string_def resetCoq_def split: option.splits)

subsection \<open>The focus of a result\<close>

text \<open>
  C9 (every goal result of the state machine is returned with the field \<open>focus\<close> set to
  the machine's focused position, except \<open>not-running\<close>, which is returned as it is).
  \<open>toGoal\<close> does so; the editor, which reads \<open>focus\<close> of every result but
  \<open>not-running\<close>, finds it; and the tail shared by the commands returns the machine's
  goal with the focus of the machine as the call has left it.
\<close>

theorem toGoal_focus:
  assumes "stm c = Some s"
  shows "toGoal ops c g
           = Inr \<lparr>goal = g,
                  focus = (if g = NotRunning then None
                           else Some (stm_getFocusedPosition ops s))\<rparr>
     \<and> client_cursor_target
           \<lparr>goal = g,
            focus = (if g = NotRunning then None else Some (stm_getFocusedPosition ops s))\<rparr>
         = Inr (if g = NotRunning then None else Some (stm_getFocusedPosition ops s))
     \<and> (run_result (stm_getGoal ops s) = Inr g \<longrightarrow>
          (\<exists>c' t s'. stm c' = Some s'
             \<and> log_and_getGoal ops c logging
                 = (c', t, Inr \<lparr>goal = g,
                               focus = (if g = NotRunning then None
                                        else Some (stm_getFocusedPosition ops s'))\<rparr>)))"
proof (intro conjI impI)
  show "toGoal ops c g
           = Inr \<lparr>goal = g,
                  focus = (if g = NotRunning then None
                           else Some (stm_getFocusedPosition ops s))\<rparr>"
    using assms by (simp add: toGoal_def)
  show "client_cursor_target
           \<lparr>goal = g,
            focus = (if g = NotRunning then None else Some (stm_getFocusedPosition ops s))\<rparr>
         = Inr (if g = NotRunning then None else Some (stm_getFocusedPosition ops s))"
    by (simp add: client_cursor_target_def)
next
  assume res: "run_result (stm_getGoal ops s) = Inr g"
  define R where "R = run_stm ops c (stm_getGoal ops s)"
  have "stm (fst R) \<noteq> None"
    unfolding R_def using assms by (simp add: run_stm_stm)
  then obtain s' where s': "stm (fst R) = Some s'" by auto
  have r: "snd (snd R) = Inr g"
    using res by (simp add: R_def run_stm_def Let_def split_beta)
  have "log_and_getGoal ops c logging
      = (fst R, (if logging then [StmCall CallLogDebuggingSentences] else [])
                @ StmCall CallGetGoal # fst (snd R),
         toGoal ops (fst R) g)"
    using assms r by (simp add: log_and_getGoal_def Let_def split_beta R_def[symmetric])
  also have "toGoal ops (fst R) g
      = Inr \<lparr>goal = g, focus = (if g = NotRunning then None
                                 else Some (stm_getFocusedPosition ops s'))\<rparr>"
    using s' by (simp add: toGoal_def)
  finally show "\<exists>c' t s'. stm c' = Some s'
             \<and> log_and_getGoal ops c logging
                 = (c', t, Inr \<lparr>goal = g,
                               focus = (if g = NotRunning then None
                                        else Some (stm_getFocusedPosition ops s'))\<rparr>)"
    using s' by blast
qed

theorem toGoal_focus_witness:
  "stm (new_document ''A.'') = Some (stm_new (toy_ops 100) ''coqtop'')
   \<and> run_result (stm_getGoal (toy_ops 100) (stm_new (toy_ops 100) ''coqtop'')) = Inr NoProof
   \<and> toGoal (toy_ops 100) (new_document ''A.'') NoProof
       = Inr \<lparr>goal = NoProof, focus = Some (Position_create 0 0)\<rparr>
   \<and> client_cursor_target \<lparr>goal = NoProof, focus = Some (Position_create 0 0)\<rparr>
       = Inr (Some (Position_create 0 0))
   \<and> (\<exists>c' t s'. stm c' = Some s'
        \<and> log_and_getGoal (toy_ops 100) (new_document ''A.'') True
            = (c', t, Inr \<lparr>goal = NoProof,
                           focus = Some (stm_getFocusedPosition (toy_ops 100) s')\<rparr>))"
proof -
  have g: "run_result (stm_getGoal (toy_ops 100) (stm_new (toy_ops 100) ''coqtop'')) = Inr NoProof"
    by (simp add: toy_ops_def toy_getGoal_def toy_idle_def)
  have f: "stm_getFocusedPosition (toy_ops 100) (stm_new (toy_ops 100) ''coqtop'')
             = Position_create 0 0"
    by (simp add: toy_ops_def toy_focus_def)
  show ?thesis
    using toGoal_focus[where c = "new_document ''A.''" and ops = "toy_ops 100"
            and g = NoProof and logging = True, OF new_document_fields(1)] g f
    by (simp add: new_document_fields)
qed

subsection \<open>Interpreting to the end\<close>

lemma assertStm_documentText: "documentText (fst (assertStm ops c)) = documentText c"
  by (auto simp: assertStm_def resetCoq_def split: option.splits)

lemma interpretToEnd_finally:
  assumes "stm_isRunning ops (stm_new ops (coqtopSettings c))
           \<or> (\<exists>s. stm c = Some s \<and> stm_isRunning ops s)"
  shows "interpretToEnd E ops c tok
           = finally_updateDiagnostics ops
               (interpretToPoint E ops c (int (length (documentText c))) tok)"
proof (cases "\<exists>s. stm c = Some s \<and> stm_isRunning ops s")
  case True
  then obtain s where "stm c = Some s" and "stm_isRunning ops s" by blast
  then show ?thesis
    by (simp add: interpretToEnd_def assertStm_running after_Nil)
next
  case False
  then have dead: "stm c = None \<or> (\<exists>s. stm c = Some s \<and> \<not> stm_isRunning ops s)"
    by (cases "stm c") auto
  from False assms have fresh: "stm_isRunning ops (stm_new ops (coqtopSettings c))"
    by blast
  show ?thesis
    by (simp add: interpretToEnd_def assertStm_dead[OF dead] resetCoq_documentText
          interpretToPoint_dead[OF dead fresh])
qed

text \<open>
  C10 as stated (\<open>interpretToEnd\<close> sends the same notifications as \<open>interpretToPoint\<close> at
  the length of the text) fails: on the document \<open>A.\<close> the trace of \<open>interpretToEnd\<close> is
  that of \<open>interpretToPoint\<close> at offset 2 with one more diagnostics notification at its
  end.
\<close>

theorem interpretToEnd_sends_diagnostics_twice:
  "fst (snd (interpretToEnd model_env (toy_ops 100) (new_document ''A.'') False))
     \<noteq> fst (snd (interpretToPoint model_env (toy_ops 100) (new_document ''A.'') 2 False))
   \<and> fst (snd (interpretToEnd model_env (toy_ops 100) (new_document ''A.'') False))
     = fst (snd (interpretToPoint model_env (toy_ops 100) (new_document ''A.'') 2 False))
       @ [Notify (SendDiagnostics [])]
   \<and> int (length (documentText (new_document ''A.''))) = 2"
  by code_simp

text \<open>
  C10, amended: where the state machine is running, or a new machine reports running,
  \<open>interpretToEnd\<close> returns the result of \<open>interpretToPoint\<close> at the length of the text,
  leaves the same state and makes the same calls and notifications, followed by one more
  diagnostics notification with the list of the final machine's errors.
\<close>

theorem interpretToEnd_as_interpretToPoint:
  assumes "stm_isRunning ops (stm_new ops (coqtopSettings c))
           \<or> (\<exists>s. stm c = Some s \<and> stm_isRunning ops s)"
  shows "\<exists>s'. stm (fst (interpretToPoint E ops c (int (length (documentText c))) tok)) = Some s'
     \<and> interpretToEnd E ops c tok
         = (fst (interpretToPoint E ops c (int (length (documentText c))) tok),
            fst (snd (interpretToPoint E ops c (int (length (documentText c))) tok))
              @ [Notify (SendDiagnostics (diagnostics_of_errors (stm_getErrors ops s')))],
            snd (snd (interpretToPoint E ops c (int (length (documentText c))) tok)))"
proof -
  define P where "P = interpretToPoint E ops c (int (length (documentText c))) tok"
  obtain s' where s': "stm (fst P) = Some s'"
    using interpretToPoint_stm[of E ops c "int (length (documentText c))" tok]
    by (auto simp: P_def)
  have "interpretToEnd E ops c tok = finally_updateDiagnostics ops P"
    unfolding P_def by (rule interpretToEnd_finally[OF assms])
  also have "\<dots> = finally_updateDiagnostics ops (fst P, fst (snd P), snd (snd P))"
    by simp
  also have "\<dots> = (fst P,
      fst (snd P) @ [Notify (SendDiagnostics (diagnostics_of_errors (stm_getErrors ops s')))],
      snd (snd P))"
    by (rule finally_updateDiagnostics_Some[OF s'])
  finally show ?thesis
    using s' unfolding P_def by blast
qed

theorem interpretToEnd_as_interpretToPoint_witness:
  "stm_isRunning (toy_ops 100)
     (stm_new (toy_ops 100) (coqtopSettings (new_document ''A. B.'')))
   \<and> (\<exists>s'. stm (fst (interpretToPoint model_env (toy_ops 100) (new_document ''A. B.'')
                       (int (length (documentText (new_document ''A. B.'')))) False)) = Some s'
     \<and> interpretToEnd model_env (toy_ops 100) (new_document ''A. B.'') False
         = (fst (interpretToPoint model_env (toy_ops 100) (new_document ''A. B.'')
                   (int (length (documentText (new_document ''A. B.'')))) False),
            fst (snd (interpretToPoint model_env (toy_ops 100) (new_document ''A. B.'')
                   (int (length (documentText (new_document ''A. B.'')))) False))
              @ [Notify (SendDiagnostics
                   (diagnostics_of_errors (stm_getErrors (toy_ops 100) s')))],
            snd (snd (interpretToPoint model_env (toy_ops 100) (new_document ''A. B.'')
                   (int (length (documentText (new_document ''A. B.'')))) False))))"
  using interpretToEnd_as_interpretToPoint
          [of "toy_ops 100" "new_document ''A. B.''" model_env False]
    toy_new_running[of 100 "coqtopSettings (new_document ''A. B.'')"]
  by blast
end
